theory Spec2Isabelle
  imports Complex_Main "HOL-Library.Word" "HOL-Library.AList"
begin

unbundle bit_operations_syntax

section \<open>Bytes and text\<close>

text \<open>
  A Python \<open>bytes\<close> value is a list of 8-bit words. A Python \<open>str\<close> is a list of
  Unicode code points, each a natural number; \<open>str_of\<close> turns an ASCII literal of the
  source into such a list.
\<close>

type_synonym byte = "8 word"
type_synonym bytes = "byte list"
type_synonym ustr = "nat list"

definition str_of :: "string \<Rightarrow> ustr" where
  "str_of s = map of_char s"

definition bytes_of :: "string \<Rightarrow> bytes" where
  "bytes_of s = map of_char s"

text \<open>\<open>str(n)\<close> for a non-negative Python int: its decimal digits.\<close>

fun str_int :: "nat \<Rightarrow> ustr" where
  "str_int n = (if n < 10 then [48 + n] else str_int (n div 10) @ [48 + n mod 10])"

declare str_int.simps [simp del]

text \<open>
  \<open>str.isspace\<close> of one code point, as \<open>str.strip()\<close> without argument uses it:
  the Unicode white space characters.
\<close>

definition isspace :: "nat \<Rightarrow> bool" where
  "isspace c \<longleftrightarrow>
     (9 \<le> c \<and> c \<le> 13) \<or> (28 \<le> c \<and> c \<le> 32) \<or> c = 133 \<or> c = 160 \<or> c = 5760 \<or>
     (8192 \<le> c \<and> c \<le> 8202) \<or> c = 8232 \<or> c = 8233 \<or> c = 8239 \<or> c = 8287 \<or> c = 12288"

definition strip :: "ustr \<Rightarrow> ustr" where
  "strip s = rev (dropWhile isspace (rev (dropWhile isspace s)))"

text \<open>
  The line boundaries of \<open>str.splitlines()\<close>: LF, VT, FF, CR, FS, GS, RS, NEL, LS and
  PS, with CR LF counted as one boundary. A final line without a terminator is kept, and
  no empty line follows a final terminator.
\<close>

definition is_linebreak :: "nat \<Rightarrow> bool" where
  "is_linebreak c \<longleftrightarrow>
     (10 \<le> c \<and> c \<le> 13) \<or> (28 \<le> c \<and> c \<le> 30) \<or> c = 133 \<or> c = 8232 \<or> c = 8233"

fun splitlines_from :: "ustr \<Rightarrow> ustr \<Rightarrow> ustr list" where
  "splitlines_from cur [] = (if cur = [] then [] else [cur])"
| "splitlines_from cur [c] = (if is_linebreak c then [cur] else [cur @ [c]])"
| "splitlines_from cur (c # d # cs) =
     (if c = 13 \<and> d = 10 then cur # splitlines_from [] cs
      else if is_linebreak c then cur # splitlines_from [] (d # cs)
      else splitlines_from (cur @ [c]) (d # cs))"

definition splitlines :: "ustr \<Rightarrow> ustr list" where
  "splitlines s = splitlines_from [] s"

definition startswith :: "ustr \<Rightarrow> ustr \<Rightarrow> bool" where
  "startswith s p \<longleftrightarrow> take (length p) s = p"

text \<open>\<open>str.replace(old, new)\<close> for one-character \<open>old\<close> and \<open>new\<close>.\<close>

definition replace_char :: "nat \<Rightarrow> nat \<Rightarrow> ustr \<Rightarrow> ustr" where
  "replace_char old new s = map (\<lambda>c. if c = old then new else c) s"

subsection \<open>Lossy UTF-8 decoding\<close>

text \<open>
  \<open>bytes.decode("utf-8", "replace")\<close>, on the numeric values of the bytes. A well-formed
  sequence gives its code point. An ill-formed one gives U+FFFD for its longest prefix
  that could start a well-formed sequence (one byte at least), and decoding goes on at
  the byte after that prefix. Overlong forms, surrogates and values above U+10FFFF are
  ill-formed. The function never fails.
\<close>

definition is_cont :: "nat \<Rightarrow> bool" where
  "is_cont c \<longleftrightarrow> 128 \<le> c \<and> c < 192"

fun utf8_replace :: "nat list \<Rightarrow> ustr" where
  "utf8_replace [] = []"
| "utf8_replace (ch # s) =
     (if ch < 128 then ch # utf8_replace s
      else if ch < 194 then 65533 # utf8_replace s
      else if ch < 224 then
        (case s of
           [] \<Rightarrow> [65533]
         | c2 # s2 \<Rightarrow>
             if \<not> is_cont c2 then 65533 # utf8_replace s
             else (ch mod 32 * 64 + c2 mod 64) # utf8_replace s2)
      else if ch < 240 then
        (case s of
           [] \<Rightarrow> [65533]
         | c2 # s2 \<Rightarrow>
             if \<not> is_cont c2 \<or> (if c2 < 160 then ch = 224 else ch = 237)
             then 65533 # utf8_replace s
             else (case s2 of
                     [] \<Rightarrow> [65533]
                   | c3 # s3 \<Rightarrow>
                       if \<not> is_cont c3 then 65533 # utf8_replace s2
                       else (ch mod 16 * 4096 + c2 mod 64 * 64 + c3 mod 64)
                              # utf8_replace s3))
      else if ch < 245 then
        (case s of
           [] \<Rightarrow> [65533]
         | c2 # s2 \<Rightarrow>
             if \<not> is_cont c2 \<or> (if c2 < 144 then ch = 240 else ch = 244)
             then 65533 # utf8_replace s
             else (case s2 of
                     [] \<Rightarrow> [65533]
                   | c3 # s3 \<Rightarrow>
                       if \<not> is_cont c3 then 65533 # utf8_replace s2
                       else (case s3 of
                               [] \<Rightarrow> [65533]
                             | c4 # s4 \<Rightarrow>
                                 if \<not> is_cont c4 then 65533 # utf8_replace s3
                                 else (ch mod 8 * 262144 + c2 mod 64 * 4096
                                         + c3 mod 64 * 64 + c4 mod 64)
                                        # utf8_replace s4)))
      else 65533 # utf8_replace s)"

definition decode_utf8 :: "bytes \<Rightarrow> ustr" where
  "decode_utf8 bs = utf8_replace (map unat bs)"

section \<open>The SAP header\<close>

datatype error = TooShort | StructError | OSError

text \<open>
  \<open>struct.pack("!BBH", b, a, h)\<close>: two unsigned bytes and one unsigned 16-bit value in
  network byte order; \<open>struct.error\<close> when a value does not fit its field.
\<close>

definition pack_BBH :: "nat \<Rightarrow> nat \<Rightarrow> nat \<Rightarrow> error + bytes" where
  "pack_BBH b a h =
     (if b < 256 \<and> a < 256 \<and> h < 65536
      then Inr [of_nat b, of_nat a, of_nat (h div 256), of_nat (h mod 256)]
      else Inl StructError)"

text \<open>\<open>struct.unpack("!BBH", bs)\<close>: \<open>struct.error\<close> unless \<open>bs\<close> has exactly 4 bytes.\<close>

definition unpack_BBH :: "bytes \<Rightarrow> error + nat \<times> nat \<times> nat" where
  "unpack_BBH bs =
     (case bs of
        [x0, x1, x2, x3] \<Rightarrow> Inr (unat x0, unat x1, unat x2 * 256 + unat x3)
      | _ \<Rightarrow> Inl StructError)"

text \<open>\<open>int.from_bytes(bs, "big")\<close>.\<close>

definition from_bytes_big :: "bytes \<Rightarrow> nat" where
  "from_bytes_big bs = foldl (\<lambda>acc b. acc * 256 + unat b) 0 bs"

text \<open>
  \<open>sap_header\<close> of \<open>sap_sender.py\<close> and \<open>sender.py\<close> (the two are the same function).
  \<open>sha1\<close> stands for \<open>hashlib.sha1(_).digest()\<close> and \<open>src_ipv4\<close> for the four bytes
  \<open>socket.inet_aton\<close> returns for the address string: both are library calls, taken as
  parameters. The header has no parameter for the message identifier or the message
  type: the identifier is the first two digest bytes and \<open>T\<close> is the constant 0.
\<close>

definition sap_header :: "(bytes \<Rightarrow> bytes) \<Rightarrow> bytes \<Rightarrow> bytes \<Rightarrow> error + bytes" where
  "sap_header sha1 sdp_bytes src_ipv4 =
     (let V = 1 :: nat; A = 0 :: nat; R = 0 :: nat; T = 0 :: nat; E = 0 :: nat; C = 0 :: nat;
          b0 = push_bit 5 V OR push_bit 4 A OR push_bit 3 R OR push_bit 2 T OR push_bit 1 E OR C;
          auth_len = 0;
          msg_id = from_bytes_big (take 2 (sha1 sdp_bytes))
      in case pack_BBH b0 auth_len msg_id of
           Inl e \<Rightarrow> Inl e
         | Inr hdr \<Rightarrow> Inr (hdr @ src_ipv4))"

text \<open>The packet both senders transmit: \<open>sap_header(sdp, src) + sdp\<close>.\<close>

definition sap_packet :: "(bytes \<Rightarrow> bytes) \<Rightarrow> bytes \<Rightarrow> bytes \<Rightarrow> error + bytes" where
  "sap_packet sha1 sdp_bytes src_ipv4 =
     (case sap_header sha1 sdp_bytes src_ipv4 of
        Inl e \<Rightarrow> Inl e
      | Inr hdr \<Rightarrow> Inr (hdr @ sdp_bytes))"

text \<open>
  What the receive loops of \<open>sap_discovery.py\<close> and \<open>sap_receiver.py\<close> read from a
  datagram before they act on it (the same lines in both files). A datagram of fewer
  than 8 bytes is skipped (\<open>TooShort\<close>). The four bytes of the originating address are
  skipped, not read. \<open>pkt[off:]\<close> is a slice: past the end of the datagram it is empty,
  it does not raise.
\<close>

record decoded =
  d_b0 :: nat
  d_auth_len :: nat
  d_msg_id :: nat
  d_deletion :: nat
  d_off :: nat
  d_payload :: bytes
  d_sdp :: ustr

definition decode :: "bytes \<Rightarrow> error + decoded" where
  "decode pkt =
     (if length pkt < 8 then Inl TooShort
      else case unpack_BBH (take 4 pkt) of
             Inl e \<Rightarrow> Inl e
           | Inr (b0, auth_len, msg_id) \<Rightarrow>
               (let deletion = drop_bit 2 b0 AND 1;
                    off = 4 + 4;
                    off = off + auth_len * 4;
                    payload = drop off pkt;
                    sdp = strip (decode_utf8 payload)
                in Inr \<lparr>d_b0 = b0, d_auth_len = auth_len, d_msg_id = msg_id,
                        d_deletion = deletion, d_off = off, d_payload = payload,
                        d_sdp = sdp\<rparr>))"


section \<open>Titles and file names\<close>

text \<open>\<open>parse_title\<close>: the rest of the first line that starts with \<open>s=\<close>, stripped.\<close>

fun parse_title_lines :: "ustr list \<Rightarrow> ustr option" where
  "parse_title_lines [] = None"
| "parse_title_lines (line # rest) =
     (if startswith line (str_of ''s='') then Some (strip (drop 2 line))
      else parse_title_lines rest)"

definition parse_title :: "ustr \<Rightarrow> ustr option" where
  "parse_title sdp = parse_title_lines (splitlines sdp)"

text \<open>
  Python's \<open>x or y\<close> for an optional string \<open>x\<close>: \<open>None\<close> and the empty string are
  both false, so both give \<open>y\<close>.
\<close>

definition or_else :: "ustr option \<Rightarrow> ustr \<Rightarrow> ustr" where
  "or_else x y = (case x of None \<Rightarrow> y | Some t \<Rightarrow> if t = [] then y else t)"

definition session_name :: "nat \<Rightarrow> ustr" where
  "session_name msg_id = str_of ''session_'' @ str_int msg_id"

subsection \<open>Paths\<close>

text \<open>
  \<open>str(Path(a) / b)\<close> on a POSIX system, after \<open>pathlib\<close> and \<open>posixpath\<close>: \<open>b\<close>
  replaces \<open>a\<close> when it starts with a slash; the joined string is then split at the
  slashes, empty components and \<open>.\<close> are dropped and \<open>..\<close> is kept. Code point 47 is
  the slash, 46 the dot.
\<close>

definition posix_join :: "ustr \<Rightarrow> ustr \<Rightarrow> ustr" where
  "posix_join a b =
     (if startswith b [47] then b
      else if a = [] \<or> last a = 47 then a @ b
      else a @ [47] @ b)"

definition splitroot :: "ustr \<Rightarrow> ustr \<times> ustr" where
  "splitroot p =
     (if take 1 p \<noteq> [47] then ([], p)
      else if take 1 (drop 1 p) \<noteq> [47] \<or> take 1 (drop 2 p) = [47] then ([47], drop 1 p)
      else (take 2 p, drop 2 p))"

fun split_sep :: "ustr \<Rightarrow> ustr \<Rightarrow> ustr list" where
  "split_sep cur [] = [cur]"
| "split_sep cur (c # cs) =
     (if c = 47 then cur # split_sep [] cs else split_sep (cur @ [c]) cs)"

fun join_sep :: "ustr list \<Rightarrow> ustr" where
  "join_sep [] = []"
| "join_sep [x] = x"
| "join_sep (x # y # r) = x @ [47] @ join_sep (y # r)"

definition path_parts :: "ustr \<Rightarrow> ustr list" where
  "path_parts rel = filter (\<lambda>x. x \<noteq> [] \<and> x \<noteq> [46]) (split_sep [] rel)"

definition path_str :: "ustr \<Rightarrow> ustr" where
  "path_str p =
     (case splitroot p of
        (anchor, rel) \<Rightarrow>
          if anchor \<noteq> [] then anchor @ join_sep (path_parts rel)
          else if path_parts rel = [] then [46]
          else join_sep (path_parts rel))"

definition path_under :: "ustr \<Rightarrow> ustr \<Rightarrow> ustr" where
  "path_under dir fname = path_str (posix_join dir fname)"

text \<open>\<open>fname\<close> of both receivers: spaces become underscores, nothing else changes.\<close>

definition file_name :: "ustr \<Rightarrow> ustr" where
  "file_name title = replace_char 32 95 title @ str_of ''.sdp''"

section \<open>The session directory of sap_discovery.py\<close>

text \<open>
  \<open>expire_sec\<close> and \<open>output_dir\<close> are the two command-line options. Time stamps are
  the values of \<open>time.time()\<close>, taken as exact real numbers. \<open>os_outcome\<close> says, for
  one step of a loop, on which paths the file system refuses a write or an unlink.
\<close>

record config =
  expire_sec :: int
  output_dir :: ustr

record os_outcome =
  write_raises :: "ustr \<Rightarrow> bool"
  unlink_raises :: "ustr \<Rightarrow> bool"

record info =
  title :: ustr
  path :: ustr
  last_seen :: real
  sdp :: ustr

text \<open>
  What a loop does to the outside: \<open>Write p c\<close> opens \<open>p\<close> for writing and writes
  \<open>c\<close>; \<open>Unlink mid p raised\<close> calls \<open>unlink\<close> on \<open>p\<close> for the entry popped under
  \<open>mid\<close>, with whether the call raised; \<open>Print\<close> is a line on standard output.
  \<open>seen\<close> is the dictionary, in insertion order; \<open>out\<close> collects the effects, oldest
  first.
\<close>

datatype effect = Write ustr ustr | Unlink nat ustr bool | Print ustr

record state =
  seen :: "(nat \<times> info) list"
  out :: "effect list"

definition arrow :: ustr where
  "arrow = [32, 8594, 32]"

definition msg_expired :: "info \<Rightarrow> nat \<Rightarrow> ustr" where
  "msg_expired i mid =
     str_of ''Expired: '' @ title i @ str_of '' ('' @ str_int mid @ str_of '')'' @ arrow
       @ str_of ''removed '' @ path i"

definition msg_deleted :: "info \<Rightarrow> nat \<Rightarrow> ustr" where
  "msg_deleted i msg_id =
     str_of ''Deleted: '' @ title i @ str_of '' ('' @ str_int msg_id @ str_of '')'' @ arrow
       @ str_of ''removed '' @ path i"

definition msg_deleted_absent :: "nat \<Rightarrow> ustr" where
  "msg_deleted_absent msg_id = str_of ''Deleted '' @ str_int msg_id"

definition msg_new :: "ustr \<Rightarrow> ustr \<Rightarrow> ustr" where
  "msg_new t fpath = str_of ''New: '' @ t @ arrow @ str_of ''wrote '' @ fpath"

text \<open>
  One pass of \<open>sweeper\<close>, between two sleeps: the keys of the entries with
  \<open>now - last_seen > expire_sec\<close> are collected, then each is popped; its file is
  unlinked inside \<open>try\<close>/\<open>except Exception: pass\<close>, so a failure of \<open>unlink\<close> changes
  nothing. A popped entry is a non-empty dictionary, hence true in \<open>if info\<close>.
\<close>

definition expired :: "config \<Rightarrow> real \<Rightarrow> info \<Rightarrow> bool" where
  "expired cfg now i \<longleftrightarrow> now - last_seen i > real_of_int (expire_sec cfg)"

definition to_delete :: "config \<Rightarrow> real \<Rightarrow> (nat \<times> info) list \<Rightarrow> nat list" where
  "to_delete cfg now items = map fst (filter (\<lambda>(mid, i). expired cfg now i) items)"

fun sweep_pop :: "os_outcome \<Rightarrow> nat list \<Rightarrow> state \<Rightarrow> state" where
  "sweep_pop os [] st = st"
| "sweep_pop os (mid # mids) st =
     (case map_of (seen st) mid of
        None \<Rightarrow> sweep_pop os mids st
      | Some i \<Rightarrow>
          sweep_pop os mids
            (st\<lparr>seen := AList.delete mid (seen st),
                out := out st @ [Unlink mid (path i) (unlink_raises os (path i)),
                                 Print (msg_expired i mid)]\<rparr>))"

definition sweeper :: "config \<Rightarrow> os_outcome \<Rightarrow> real \<Rightarrow> state \<Rightarrow> state" where
  "sweeper cfg os now st = sweep_pop os (to_delete cfg now (seen st)) st"

text \<open>\<open>parse_title(sdp) or f"session_{msg_id}"\<close>, for a decoded datagram.\<close>

definition announced_title :: "decoded \<Rightarrow> ustr" where
  "announced_title d = or_else (parse_title (d_sdp d)) (session_name (d_msg_id d))"

text \<open>
  One pass of the \<open>while True\<close> loop of \<open>main\<close>, for the datagram \<open>pkt\<close> that
  \<open>recvfrom\<close> returned and the time \<open>now\<close> that \<open>time.time()\<close> returns. A short
  datagram is skipped. The entry is assigned before the file is written, and the write is
  not guarded: when it raises, the exception leaves \<open>main\<close>.
\<close>

definition main_loop :: "config \<Rightarrow> os_outcome \<Rightarrow> real \<Rightarrow> bytes \<Rightarrow> state \<Rightarrow> error + state" where
  "main_loop cfg os now pkt st =
     (case decode pkt of
        Inl TooShort \<Rightarrow> Inr st
      | Inl e \<Rightarrow> Inl e
      | Inr d \<Rightarrow>
          (let msg_id = d_msg_id d in
           if d_deletion d \<noteq> 0 then
             (case map_of (seen st) msg_id of
                Some i \<Rightarrow>
                  Inr (st\<lparr>seen := AList.delete msg_id (seen st),
                          out := out st @ [Unlink msg_id (path i) (unlink_raises os (path i)),
                                           Print (msg_deleted i msg_id)]\<rparr>)
              | None \<Rightarrow> Inr (st\<lparr>out := out st @ [Print (msg_deleted_absent msg_id)]\<rparr>))
           else
             (let title = announced_title d;
                  fname = file_name title;
                  fpath = path_under (output_dir cfg) fname;
                  first_time = (map_of (seen st) msg_id = None);
                  st1 = st\<lparr>seen := AList.update msg_id
                                      \<lparr>title = title, path = fpath, last_seen = now,
                                       sdp = d_sdp d\<rparr> (seen st)\<rparr>
              in if first_time then
                   (if write_raises os fpath then Inl OSError
                    else Inr (st1\<lparr>out := out st1 @ [Write fpath (d_sdp d @ [10]),
                                                     Print (msg_new title fpath)]\<rparr>))
                 else Inr st1)))"

text \<open>
  A run of the program: datagrams and sweeper passes in the order they happen, each
  taken as one indivisible step, each with the answers of the file system during it.
  The run stops at the first exception that leaves a loop.
\<close>

datatype event = Datagram real bytes | Sweep real

fun step :: "config \<Rightarrow> os_outcome \<times> event \<Rightarrow> state \<Rightarrow> error + state" where
  "step cfg (os, Datagram now pkt) st = main_loop cfg os now pkt st"
| "step cfg (os, Sweep now) st = Inr (sweeper cfg os now st)"

fun run :: "config \<Rightarrow> (os_outcome \<times> event) list \<Rightarrow> state \<Rightarrow> error + state" where
  "run cfg [] st = Inr st"
| "run cfg (e # es) st = (case step cfg e st of Inl x \<Rightarrow> Inl x | Inr st' \<Rightarrow> run cfg es st')"

definition start :: state where
  "start = \<lparr>seen = [], out = []\<rparr>"

section \<open>The receive loop of sap_receiver.py\<close>

text \<open>
  The older receiver keeps only the document of each identifier, stores it when the
  identifier is new and never afterwards, writes the file into the current directory,
  and on a deletion forgets the identifier without removing the file.
\<close>

record rstate =
  rseen :: "(nat \<times> ustr) list"
  rout :: "effect list"

definition receiver_loop :: "os_outcome \<Rightarrow> bytes \<Rightarrow> rstate \<Rightarrow> error + rstate" where
  "receiver_loop os pkt st =
     (case decode pkt of
        Inl TooShort \<Rightarrow> Inr st
      | Inl e \<Rightarrow> Inl e
      | Inr d \<Rightarrow>
          (let msg_id = d_msg_id d in
           if d_deletion d \<noteq> 0 then
             Inr (st\<lparr>rseen := AList.delete msg_id (rseen st),
                     rout := rout st @ [Print (msg_deleted_absent msg_id)]\<rparr>)
           else if map_of (rseen st) msg_id = None then
             (let st1 = st\<lparr>rseen := AList.update msg_id (d_sdp d) (rseen st)\<rparr>;
                  title = parse_title (d_sdp d);
                  fname = file_name (announced_title d)
              in if write_raises os fname then Inl OSError
                 else Inr (st1\<lparr>rout := rout st1 @
                             [Write fname (d_sdp d @ [10]),
                              Print (msg_new (or_else title (str_int msg_id)) fname)]\<rparr>))
           else Inr st))"

section \<open>The announcers\<close>

text \<open>
  What an announcer does to the outside, in order: \<open>Launch\<close> starts the media
  pipeline, \<open>Sendto\<close> sends one datagram to the SAP group, \<open>Sleep\<close> waits, \<open>Say\<close>
  prints a line, \<open>Terminate\<close>, \<open>Wait\<close> and \<open>Kill\<close> act on the pipeline process and
  \<open>SysExit\<close> raises \<open>SystemExit\<close>. \<open>proc_outcome\<close> says how the pipeline process
  answers a shutdown.
\<close>

datatype action =
  Launch | Sendto bytes | Sleep real | Say ustr | Terminate | Wait real | Kill | SysExit int

datatype proc_outcome = Stops | TerminateRaises | WaitRaises

text \<open>A Delete packet, as the receivers read it: a datagram they decode with the T bit set.\<close>

definition sends_delete :: "action \<Rightarrow> bool" where
  "sends_delete a =
     (case a of
        Sendto pkt \<Rightarrow> (case decode pkt of Inr d \<Rightarrow> d_deletion d \<noteq> 0 | Inl e \<Rightarrow> False)
      | _ \<Rightarrow> False)"

definition is_sendto :: "action \<Rightarrow> bool" where
  "is_sendto a = (case a of Sendto pkt \<Rightarrow> True | _ \<Rightarrow> False)"

subsection \<open>sender.py\<close>

text \<open>
  \<open>shutdown\<close>, the handler of SIGINT and SIGTERM: it stops the pipeline and exits with
  status 0. It does not touch the socket.
\<close>

definition shutdown :: "proc_outcome \<Rightarrow> action list" where
  "shutdown po =
     [Say ([10] @ str_of ''Shutting down sender'' @ [8230]), Terminate]
       @ (case po of Stops \<Rightarrow> [Wait 3] | TerminateRaises \<Rightarrow> [Kill] | WaitRaises \<Rightarrow> [Wait 3, Kill])
       @ [SysExit 0]"

text \<open>
  \<open>send_sap_loop\<close> never returns: three announcements one second apart, then one every
  \<open>interval\<close> seconds for ever. Its model gives the first \<open>k\<close> actions of the loop, those
  done when a signal or an exception ends it.
\<close>

fun steady :: "bytes \<Rightarrow> real \<Rightarrow> nat \<Rightarrow> action list" where
  "steady pkt interval 0 = []"
| "steady pkt interval (Suc n) = Sendto pkt # Sleep interval # steady pkt interval n"

definition send_sap_loop ::
  "(bytes \<Rightarrow> bytes) \<Rightarrow> bytes \<Rightarrow> bytes \<Rightarrow> real \<Rightarrow> nat \<Rightarrow> error + action list" where
  "send_sap_loop sha1 sdp_bytes src_ip interval k =
     (case sap_packet sha1 sdp_bytes src_ip of
        Inl e \<Rightarrow> Inl e
      | Inr pkt \<Rightarrow>
          Inr (take k (concat (replicate 3 [Sendto pkt, Sleep 1]) @ steady pkt interval k)))"

text \<open>
  \<open>main\<close> of \<open>sender.py\<close> from the start of the pipeline on. A signal runs \<open>shutdown\<close>
  inside the loop; its \<open>SystemExit\<close> passes through the \<open>finally\<close> clause, which runs
  \<open>shutdown\<close> once more.
\<close>

definition sender_main ::
  "(bytes \<Rightarrow> bytes) \<Rightarrow> bytes \<Rightarrow> bytes \<Rightarrow> real \<Rightarrow> nat \<Rightarrow> proc_outcome \<Rightarrow> proc_outcome
     \<Rightarrow> action list" where
  "sender_main sha1 sdp_bytes src_ip interval k po1 po2 =
     Launch #
       (case send_sap_loop sha1 sdp_bytes src_ip interval k of
          Inl e \<Rightarrow> shutdown po2
        | Inr acts \<Rightarrow> acts @ shutdown po1 @ shutdown po2)"

subsection \<open>sap_sender.py\<close>

definition SDPS :: "bytes list" where
  "SDPS =
     [bytes_of (''v=0\<newline>o=senderA 1 1 IN IP4 192.0.2.10\<newline>s=Feed A - Ball\<newline>''
        @ ''i=H.264 RTP\<newline>t=0 0\<newline>c=IN IP4 239.255.0.10/32\<newline>''
        @ ''m=video 5004 RTP/AVP 96\<newline>a=rtpmap:96 H264/90000\<newline>''
        @ ''a=fmtp:96 packetization-mode=1;profile-level-id=42e01f\<newline>''),
      bytes_of (''v=0\<newline>o=senderB 1 1 IN IP4 192.0.2.11\<newline>s=Feed B - SMPTE\<newline>''
        @ ''i=H.264 RTP\<newline>t=0 0\<newline>c=IN IP4 239.255.0.11/32\<newline>''
        @ ''m=video 5004 RTP/AVP 96\<newline>a=rtpmap:96 H264/90000\<newline>''
        @ ''a=fmtp:96 packetization-mode=1;profile-level-id=42e01f\<newline>'')]"

text \<open>\<open>[sap_header(sdp) + sdp for sdp in sdps]\<close>, with the default source 0.0.0.0.\<close>

fun build_packets :: "(bytes \<Rightarrow> bytes) \<Rightarrow> bytes list \<Rightarrow> error + bytes list" where
  "build_packets sha1 [] = Inr []"
| "build_packets sha1 (sdp_bytes # rest) =
     (case sap_packet sha1 sdp_bytes [0, 0, 0, 0] of
        Inl e \<Rightarrow> Inl e
      | Inr p \<Rightarrow>
          (case build_packets sha1 rest of Inl e \<Rightarrow> Inl e | Inr ps \<Rightarrow> Inr (p # ps)))"

text \<open>
  \<open>main\<close> of \<open>sap_sender.py\<close>: every packet three times one second apart, then every
  packet again after each random pause; \<open>jitter i\<close> is the \<open>i\<close>-th value drawn by
  \<open>random.uniform\<close>. No signal handler is installed: an interrupt ends the process where
  it stands. The model gives the first \<open>k\<close> actions.
\<close>

fun cycles :: "bytes list \<Rightarrow> (nat \<Rightarrow> real) \<Rightarrow> nat \<Rightarrow> nat \<Rightarrow> action list" where
  "cycles pkts jitter i 0 = []"
| "cycles pkts jitter i (Suc n) =
     map Sendto pkts @ [Sleep (jitter i)] @ cycles pkts jitter (Suc i) n"

definition sap_sender_main ::
  "(bytes \<Rightarrow> bytes) \<Rightarrow> bytes list \<Rightarrow> (nat \<Rightarrow> real) \<Rightarrow> nat \<Rightarrow> error + action list" where
  "sap_sender_main sha1 sdps jitter k =
     (case build_packets sha1 sdps of
        Inl e \<Rightarrow> Inl e
      | Inr pkts \<Rightarrow>
          Inr (take k (concat (replicate 3 (map Sendto pkts @ [Sleep 1]))
                        @ cycles pkts jitter 0 k)))"

section \<open>Classifying datagrams and effects\<close>

text \<open>
  How the loops classify a datagram: as an announcement of \<open>mid\<close> (T bit 0) or as a
  deletion of \<open>mid\<close> (T bit 1). A datagram too short to decode is neither.
\<close>

definition announces :: "nat \<Rightarrow> bytes \<Rightarrow> bool" where
  "announces mid pkt =
     (case decode pkt of Inr d \<Rightarrow> d_deletion d = 0 \<and> d_msg_id d = mid | Inl e \<Rightarrow> False)"

definition deletes :: "nat \<Rightarrow> bytes \<Rightarrow> bool" where
  "deletes mid pkt =
     (case decode pkt of Inr d \<Rightarrow> d_deletion d \<noteq> 0 \<and> d_msg_id d = mid | Inl e \<Rightarrow> False)"

definition is_write :: "effect \<Rightarrow> bool" where
  "is_write e = (case e of Write p c \<Rightarrow> True | _ \<Rightarrow> False)"

definition is_unlink :: "effect \<Rightarrow> bool" where
  "is_unlink e = (case e of Unlink m p r \<Rightarrow> True | _ \<Rightarrow> False)"

definition removes_for :: "nat \<Rightarrow> effect \<Rightarrow> bool" where
  "removes_for mid e = (case e of Unlink m p r \<Rightarrow> m = mid | _ \<Rightarrow> False)"

text \<open>What the sweeper does to the outside for one entry it evicts.\<close>

definition sweep_effects :: "os_outcome \<Rightarrow> nat \<times> info \<Rightarrow> effect list" where
  "sweep_effects os e = [Unlink (fst e) (path (snd e)) (unlink_raises os (path (snd e))),
     Print (msg_expired (snd e) (fst e))]"

section \<open>Example inputs\<close>

text \<open>
  The SHA-1 digests of the two documents of the examples, the empty one and \<open>v=0\<close>:
  \<open>sha1_sample\<close> is \<open>hashlib.sha1(_).digest()\<close> on these two and stands for it
  nowhere else. The theorems hold for every digest function.
\<close>

definition sha1_sample :: "bytes \<Rightarrow> bytes" where
  "sha1_sample m =
     (if m = [] then
        [218, 57, 163, 238, 94, 107, 75, 13, 50, 85, 191, 239, 149, 96, 24, 144, 175, 216, 7, 9]
      else if m = bytes_of ''v=0'' then
        [242, 0, 71, 0, 81, 66, 72, 109, 253, 33, 225, 59, 131, 65, 230, 60, 69, 228, 49, 9]
      else [])"

text \<open>
  An announcement and a deletion of the identifier 0x1234 from 0.0.0.0, a directory
  \<open>out\<close> with the default expiry, and a file system that refuses nothing or every
  unlink.
\<close>

definition announce_1234 :: "string \<Rightarrow> bytes" where
  "announce_1234 doc = [32, 0, 18, 52, 0, 0, 0, 0] @ bytes_of doc"

definition delete_1234 :: bytes where
  "delete_1234 = [36, 0, 18, 52, 0, 0, 0, 0]"

definition cfg_out :: config where
  "cfg_out = \<lparr>expire_sec = 300, output_dir = str_of ''out''\<rparr>"

definition os_fine :: os_outcome where
  "os_fine = \<lparr>write_raises = (\<lambda>p. False), unlink_raises = (\<lambda>p. False)\<rparr>"

definition os_no_unlink :: os_outcome where
  "os_no_unlink = \<lparr>write_raises = (\<lambda>p. False), unlink_raises = (\<lambda>p. True)\<rparr>"

text \<open>
  The state after the announcement of identifier 0x1234 with the document \<open>s=A\<close> at
  time 0, into the empty directory.
\<close>

definition state_A :: state where
  "state_A =
     \<lparr>seen = [(4660, \<lparr>title = str_of ''A'', path = str_of ''out/A.sdp'', last_seen = 0,
                       sdp = str_of ''s=A''\<rparr>)],
      out = [Write (str_of ''out/A.sdp'') (str_of ''s=A'' @ [10]),
             Print (str_of ''New: A'' @ [32, 8594, 32] @ str_of ''wrote out/A.sdp'')]\<rparr>"

text \<open>
  A datagram of exactly 8 bytes whose header announces one 32-bit word of
  authentication data: nothing follows the fixed header.
\<close>

definition pkt_auth_overrun :: bytes where
  "pkt_auth_overrun = [32, 1, 18, 52, 0, 0, 0, 0]"

section \<open>The text functions on examples\<close>

lemma decode_utf8_examples:
  "decode_utf8 [226, 130, 172] = [8364]"
  "decode_utf8 [226, 130] = [65533]"
  "decode_utf8 [226, 65] = [65533, 65]"
  "decode_utf8 [224, 128, 128] = [65533, 65533, 65533]"
  "decode_utf8 [240, 159, 152, 128] = [128512]"
  "decode_utf8 [237, 160, 128] = [65533, 65533, 65533]"
  by (simp_all add: decode_utf8_def is_cont_def)

lemma splitlines_examples:
  "splitlines (str_of ''v=0\<newline>s=x\<newline>'') = [str_of ''v=0'', str_of ''s=x'']"
  "splitlines [97, 13, 10, 98] = [[97], [98]]"
  "splitlines [] = []"
  "splitlines [10, 10] = [[], []]"
  by (simp_all add: splitlines_def is_linebreak_def str_of_def)

section \<open>Properties of the header codec\<close>

lemma take4_nth:
  assumes "4 \<le> length pkt"
  shows "take 4 pkt = [pkt ! 0, pkt ! 1, pkt ! 2, pkt ! 3]"
proof -
  from assms obtain x0 r0 where p0: "pkt = x0 # r0" by (cases pkt) auto
  with assms obtain x1 r1 where p1: "r0 = x1 # r1" by (cases r0) auto
  with assms p0 obtain x2 r2 where p2: "r1 = x2 # r2" by (cases r1) auto
  with assms p0 p1 obtain x3 r3 where p3: "r2 = x3 # r3" by (cases r2) auto
  show ?thesis by (simp add: p0 p1 p2 p3 numeral_3_eq_3 numeral_2_eq_2 take_Suc_Cons)
qed

lemma decode_long:
  assumes "8 \<le> length pkt"
  shows "decode pkt =
     Inr \<lparr>d_b0 = unat (pkt ! 0), d_auth_len = unat (pkt ! 1),
          d_msg_id = unat (pkt ! 2) * 256 + unat (pkt ! 3),
          d_deletion = drop_bit 2 (unat (pkt ! 0)) AND 1,
          d_off = 8 + unat (pkt ! 1) * 4,
          d_payload = drop (8 + unat (pkt ! 1) * 4) pkt,
          d_sdp = strip (decode_utf8 (drop (8 + unat (pkt ! 1) * 4) pkt))\<rparr>"
  using assms by (simp add: decode_def unpack_BBH_def Let_def take4_nth)

lemma decode_short: "length pkt < 8 \<Longrightarrow> decode pkt = Inl TooShort"
  by (simp add: decode_def)

text \<open>
  C2, as the code has it. A datagram of at least 8 bytes is always decoded: the payload
  is what follows the fixed header and \<open>authLength \<times> 4\<close> further bytes, and it is empty
  when the datagram has no more than that. No truncation error exists.
\<close>

theorem decode_never_truncated:
  assumes "8 \<le> length pkt"
  shows "\<exists>r. decode pkt = Inr r \<and>
           d_auth_len r = unat (pkt ! 1) \<and>
           d_payload r = drop (8 + d_auth_len r * 4) pkt \<and>
           (length pkt - 8 \<le> d_auth_len r * 4 \<longrightarrow> d_payload r = [])"
  using assms by (simp add: decode_long)

theorem decode_never_truncated_witness:
  "8 \<le> length pkt_auth_overrun \<and>
   (\<exists>r. decode pkt_auth_overrun = Inr r \<and>
        length pkt_auth_overrun - 8 \<le> d_auth_len r * 4 \<and> d_payload r = [])"
proof -
  have h: "8 \<le> length pkt_auth_overrun" by (simp add: pkt_auth_overrun_def)
  from decode_never_truncated [OF h] obtain r where
    r: "decode pkt_auth_overrun = Inr r" "d_auth_len r = unat (pkt_auth_overrun ! 1)"
       "length pkt_auth_overrun - 8 \<le> d_auth_len r * 4 \<longrightarrow> d_payload r = []"
    by blast
  have "length pkt_auth_overrun - 8 \<le> d_auth_len r * 4"
    by (simp add: r(2)) (simp add: pkt_auth_overrun_def)
  with r h show ?thesis by blast
qed

text \<open>
  C2, as the specification states it, fails: with one word of authentication data
  announced and no byte after the fixed header, \<open>authLength \<times> 4 = 4\<close> exceeds the 0
  bytes that remain, and the datagram is decoded all the same, as an announcement of
  the empty document.
\<close>

theorem decode_truncated_counterexample:
  "8 \<le> length pkt_auth_overrun \<and>
   length pkt_auth_overrun - 8 < unat (pkt_auth_overrun ! 1) * 4 \<and>
   decode pkt_auth_overrun =
     Inr \<lparr>d_b0 = 32, d_auth_len = 1, d_msg_id = 4660, d_deletion = 0, d_off = 12,
          d_payload = [], d_sdp = []\<rparr>"
  by (simp add: pkt_auth_overrun_def decode_def unpack_BBH_def strip_def decode_utf8_def)

lemma byte_less: "unat (b :: byte) < 256"
  using unsigned_less [of b, where ?'a = nat] by simp

lemma from_bytes_big_take2: "from_bytes_big (take 2 d) < 65536"
proof (cases d)
  case Nil then show ?thesis by (simp add: from_bytes_big_def)
next
  case (Cons a r)
  show ?thesis
  proof (cases r)
    case Nil
    then show ?thesis using \<open>d = a # r\<close> byte_less [of a] by (simp add: from_bytes_big_def)
  next
    case (Cons b r')
    have "take 2 d = [a, b]" using \<open>d = a # r\<close> Cons by (simp add: numeral_2_eq_2)
    then show ?thesis using byte_less [of a] byte_less [of b] by (simp add: from_bytes_big_def)
  qed
qed

lemma unat_of_nat_byte: "n < 256 \<Longrightarrow> unat (of_nat n :: byte) = n"
  by (simp add: unat_of_nat)

lemma pack_unpack:
  assumes "h < 65536"
  shows "unat (of_nat (h div 256) :: byte) * 256 + unat (of_nat (h mod 256) :: byte) = h"
proof -
  have "h div 256 < 256" using assms by simp
  then show ?thesis by (simp add: unat_of_nat_byte)
qed

lemma sap_header_eq:
  "sap_header sha1 p a =
     Inr ([32, 0, of_nat (from_bytes_big (take 2 (sha1 p)) div 256),
           of_nat (from_bytes_big (take 2 (sha1 p)) mod 256)] @ a)"
  using from_bytes_big_take2 [of "sha1 p"]
  by (simp add: sap_header_def pack_BBH_def Let_def)

lemma sap_packet_eq:
  "sap_packet sha1 p a =
     Inr ([32, 0, of_nat (from_bytes_big (take 2 (sha1 p)) div 256),
           of_nat (from_bytes_big (take 2 (sha1 p)) mod 256)] @ a @ p)"
  by (simp add: sap_packet_def sap_header_eq)

lemma decode_header:
  assumes "length a = 4" and "h < 65536"
  shows "decode ([32, 0, of_nat (h div 256), of_nat (h mod 256)] @ a @ p) =
     Inr \<lparr>d_b0 = 32, d_auth_len = 0, d_msg_id = h, d_deletion = 0, d_off = 8,
          d_payload = p, d_sdp = strip (decode_utf8 p)\<rparr>"
proof -
  have "unat (32 :: byte) = 32" "unat (0 :: byte) = 0" by simp_all
  moreover have "drop_bit 2 (32 :: nat) AND 1 = 0" by simp
  ultimately show ?thesis
    using assms pack_unpack [OF assms(2)]
    by (simp add: decode_def unpack_BBH_def Let_def)
qed

lemma sha1_sample_id:
  "from_bytes_big (take 2 (sha1_sample [])) = 55865"
  "from_bytes_big (take 2 (sha1_sample (bytes_of ''v=0''))) = 61952"
  by (simp_all add: sha1_sample_def from_bytes_big_def bytes_of_def)

text \<open>
  C3, as the code has it. The packet an announcer builds from a document \<open>p\<close> and a
  4-byte address \<open>a\<close> is decoded by the receivers to the payload \<open>p\<close>, with no
  authentication data, the message identifier given by the first two digest bytes of
  \<open>p\<close> and the type Announce (\<open>d_deletion = 0\<close>). The address is in bytes 4 to 7 of
  the packet; the receivers skip it.
\<close>

theorem announce_roundtrip:
  assumes "length a = 4"
  shows "\<exists>pkt. sap_packet sha1 p a = Inr pkt \<and>
           decode pkt =
             Inr \<lparr>d_b0 = 32, d_auth_len = 0,
                  d_msg_id = from_bytes_big (take 2 (sha1 p)),
                  d_deletion = 0, d_off = 8, d_payload = p,
                  d_sdp = strip (decode_utf8 p)\<rparr> \<and>
           take 4 (drop 4 pkt) = a"
  using assms decode_header [OF assms from_bytes_big_take2, of "sha1 p" p]
  by (simp add: sap_packet_eq)

theorem announce_roundtrip_witness:
  "length [192, 0, 2, 10 :: byte] = 4 \<and>
   (\<exists>pkt. sap_packet sha1_sample (bytes_of ''v=0'') [192, 0, 2, 10] = Inr pkt \<and>
      (\<exists>d. decode pkt = Inr d \<and> d_msg_id d = 61952 \<and> d_deletion d = 0 \<and>
           d_payload d = bytes_of ''v=0'') \<and>
      take 4 (drop 4 pkt) = [192, 0, 2, 10])"
proof -
  have h: "length [192, 0, 2, 10 :: byte] = 4" by simp
  from announce_roundtrip [OF h, of sha1_sample "bytes_of ''v=0''"]
  show ?thesis by (auto simp: sha1_sample_id)
qed

text \<open>
  C3, as the specification states it, fails for the type Delete and for an identifier
  chosen by the caller: the encoder takes neither. Whatever the document, its packet
  has the T bit 0 and the identifier of its digest; here the packet of the empty
  document.
\<close>

theorem encode_delete_counterexample:
  "sap_packet sha1_sample [] [0, 0, 0, 0] = Inr [32, 0, 218, 57, 0, 0, 0, 0] \<and>
   decode [32, 0, 218, 57, 0, 0, 0, 0] =
     Inr \<lparr>d_b0 = 32, d_auth_len = 0, d_msg_id = 55865, d_deletion = 0, d_off = 8,
          d_payload = [], d_sdp = []\<rparr>"
  by (simp add: sap_packet_eq sha1_sample_id)
     (simp add: decode_def unpack_BBH_def strip_def decode_utf8_def)

section \<open>Properties of the announcers\<close>

lemma sap_packet_not_delete:
  assumes "sap_packet sha1 p a = Inr pkt"
  shows "\<not> sends_delete (Sendto pkt)"
proof (cases "length pkt < 8")
  case True
  then show ?thesis by (simp add: sends_delete_def decode_short)
next
  case False
  then have l: "8 \<le> length pkt" by simp
  have "pkt ! 0 = 32" using assms by (auto simp: sap_packet_eq)
  then show ?thesis by (simp add: sends_delete_def decode_long [OF l])
qed

lemma steady_no_delete:
  "\<not> sends_delete (Sendto pkt) \<Longrightarrow> filter sends_delete (steady pkt i n) = []"
  by (induction n) (simp_all add: sends_delete_def)

lemma filter_take_empty: "filter P xs = [] \<Longrightarrow> filter P (take k xs) = []"
  by (metis filter_empty_conv in_set_takeD)

lemma shutdown_no_delete: "filter sends_delete (shutdown po) = []"
  by (cases po) (simp_all add: shutdown_def sends_delete_def)

lemma shutdown_no_sendto: "filter is_sendto (shutdown po) = []"
  by (cases po) (simp_all add: shutdown_def is_sendto_def)

lemma send_sap_loop_no_delete:
  "\<exists>acts. send_sap_loop sha1 p a i k = Inr acts \<and> filter sends_delete acts = []"
proof -
  obtain pkt where pkt: "sap_packet sha1 p a = Inr pkt" by (simp add: sap_packet_eq)
  have nd: "\<not> sends_delete (Sendto pkt)" by (rule sap_packet_not_delete [OF pkt])
  have "filter sends_delete (concat (replicate 3 [Sendto pkt, Sleep 1]) @ steady pkt i k) = []"
    using nd by (simp add: steady_no_delete numeral_3_eq_3) (simp add: sends_delete_def)
  then show ?thesis by (simp add: send_sap_loop_def pkt filter_take_empty)
qed

lemma build_packets_no_delete:
  "\<exists>pkts. build_packets sha1 sdps = Inr pkts \<and> filter sends_delete (map Sendto pkts) = []"
proof (induction sdps)
  case Nil
  then show ?case by simp
next
  case (Cons p rest)
  obtain pkt where pkt: "sap_packet sha1 p [0, 0, 0, 0] = Inr pkt" by (simp add: sap_packet_eq)
  from Cons obtain pkts where "build_packets sha1 rest = Inr pkts"
    "filter sends_delete (map Sendto pkts) = []" by blast
  then show ?case using pkt sap_packet_not_delete [OF pkt] by simp
qed

lemma cycles_no_delete:
  "filter sends_delete (map Sendto pkts) = [] \<Longrightarrow>
   filter sends_delete (cycles pkts jitter i n) = []"
  by (induction n arbitrary: i) (simp_all add: sends_delete_def)

lemma sap_sender_main_no_delete:
  "\<exists>acts. sap_sender_main sha1 sdps jitter k = Inr acts \<and> filter sends_delete acts = []"
proof -
  obtain pkts where pkts: "build_packets sha1 sdps = Inr pkts"
    and nd: "filter sends_delete (map Sendto pkts) = []"
    using build_packets_no_delete by blast
  have "\<not> sends_delete (Sleep 1)" by (simp add: sends_delete_def)
  then have "filter sends_delete
          (concat (replicate 3 (map Sendto pkts @ [Sleep 1])) @ cycles pkts jitter 0 k) = []"
    using nd by (simp add: cycles_no_delete numeral_3_eq_3)
  then show ?thesis by (simp add: sap_sender_main_def pkts filter_take_empty)
qed

lemma sap_sender_SDPS_no_delete:
  "\<exists>acts. sap_sender_main sha1 SDPS jitter k = Inr acts \<and> filter sends_delete acts = []"
  by (rule sap_sender_main_no_delete)

text \<open>
  C6, as the code has it. No announcer ever sends a Delete packet: every datagram of
  \<open>sender.py\<close>, from its start to the end of its shutdown, and every datagram of
  \<open>sap_sender.py\<close> is an announcement (T bit 0), and the shutdown handler sends no
  datagram at all. A listener forgets the session when its own timeout sweeps it.
\<close>

theorem announcers_never_send_delete:
  "filter sends_delete (sender_main sha1 sdp_bytes src_ip interval k po1 po2) = [] \<and>
   filter is_sendto (shutdown po1) = [] \<and>
   (\<exists>acts. sap_sender_main sha1 sdps jitter k = Inr acts \<and> filter sends_delete acts = [])"
proof -
  obtain acts where "send_sap_loop sha1 sdp_bytes src_ip interval k = Inr acts"
    "filter sends_delete acts = []"
    using send_sap_loop_no_delete by blast
  then have "filter sends_delete (sender_main sha1 sdp_bytes src_ip interval k po1 po2) = []"
    by (simp add: sender_main_def shutdown_no_delete) (simp add: sends_delete_def)
  then show ?thesis
    using shutdown_no_sendto sap_sender_main_no_delete by blast
qed

text \<open>
  C6, as the specification states it, fails: an announcer stopped by a signal after its
  first announcement stops the pipeline and exits, twice over, and the number of Delete
  packets it has sent is 0, not 1.
\<close>

theorem shutdown_delete_counterexample:
  "sender_main sha1_sample (bytes_of ''v=0'') [192, 0, 2, 10] 20 2 Stops Stops =
     [Launch, Sendto [32, 0, 242, 0, 192, 0, 2, 10, 118, 61, 48], Sleep 1,
      Say (10 # str_of ''Shutting down sender'' @ [8230]), Terminate, Wait 3, SysExit 0,
      Say (10 # str_of ''Shutting down sender'' @ [8230]), Terminate, Wait 3, SysExit 0] \<and>
   length (filter sends_delete
     (sender_main sha1_sample (bytes_of ''v=0'') [192, 0, 2, 10] 20 2 Stops Stops)) = 0"
proof -
  have p: "sap_packet sha1_sample (bytes_of ''v=0'') [192, 0, 2, 10] =
      Inr [32, 0, 242, 0, 192, 0, 2, 10, 118, 61, 48]"
    by (simp add: sap_packet_eq sha1_sample_id) (simp add: bytes_of_def)
  have t: "sender_main sha1_sample (bytes_of ''v=0'') [192, 0, 2, 10] 20 2 Stops Stops =
     [Launch, Sendto [32, 0, 242, 0, 192, 0, 2, 10, 118, 61, 48], Sleep 1,
      Say (10 # str_of ''Shutting down sender'' @ [8230]), Terminate, Wait 3, SysExit 0,
      Say (10 # str_of ''Shutting down sender'' @ [8230]), Terminate, Wait 3, SysExit 0]"
    by (simp add: sender_main_def send_sap_loop_def p shutdown_def numeral_3_eq_3 numeral_2_eq_2)
  have d: "\<not> sends_delete (Sendto [32, 0, 242, 0, 192, 0, 2, 10, 118, 61, 48])"
    by (simp add: sends_delete_def decode_def unpack_BBH_def Let_def)
  show ?thesis unfolding t using d by (simp add: sends_delete_def)
qed

section \<open>Properties of the session directory\<close>

lemma main_loop_short: "length pkt < 8 \<Longrightarrow> main_loop cfg os now pkt st = Inr st"
  by (simp add: main_loop_def decode_short)

lemma main_loop_delete_present:
  assumes "decode pkt = Inr d" and "d_deletion d \<noteq> 0"
    and "map_of (seen st) (d_msg_id d) = Some i"
  shows "main_loop cfg os now pkt st =
     Inr (st\<lparr>seen := AList.delete (d_msg_id d) (seen st),
             out := out st @ [Unlink (d_msg_id d) (path i) (unlink_raises os (path i)),
                              Print (msg_deleted i (d_msg_id d))]\<rparr>)"
  using assms by (simp add: main_loop_def Let_def)

lemma main_loop_delete_absent:
  assumes "decode pkt = Inr d" and "d_deletion d \<noteq> 0"
    and "map_of (seen st) (d_msg_id d) = None"
  shows "main_loop cfg os now pkt st =
     Inr (st\<lparr>out := out st @ [Print (msg_deleted_absent (d_msg_id d))]\<rparr>)"
  using assms by (simp add: main_loop_def Let_def)

lemma main_loop_announce_first:
  assumes "decode pkt = Inr d" and "d_deletion d = 0"
    and "map_of (seen st) (d_msg_id d) = None"
    and "\<not> write_raises os (path_under (output_dir cfg) (file_name (announced_title d)))"
  shows "main_loop cfg os now pkt st =
     Inr (st\<lparr>seen := AList.update (d_msg_id d)
                      \<lparr>title = announced_title d,
                       path = path_under (output_dir cfg) (file_name (announced_title d)),
                       last_seen = now, sdp = d_sdp d\<rparr> (seen st),
             out := out st @
               [Write (path_under (output_dir cfg) (file_name (announced_title d)))
                  (d_sdp d @ [10]),
                Print (msg_new (announced_title d)
                  (path_under (output_dir cfg) (file_name (announced_title d))))]\<rparr>)"
  using assms by (simp add: main_loop_def Let_def)

lemma main_loop_announce_first_raises:
  assumes "decode pkt = Inr d" and "d_deletion d = 0"
    and "map_of (seen st) (d_msg_id d) = None"
    and "write_raises os (path_under (output_dir cfg) (file_name (announced_title d)))"
  shows "main_loop cfg os now pkt st = Inl OSError"
  using assms by (simp add: main_loop_def Let_def)

lemma main_loop_announce_again:
  assumes "decode pkt = Inr d" and "d_deletion d = 0"
    and "map_of (seen st) (d_msg_id d) = Some i"
  shows "main_loop cfg os now pkt st =
     Inr (st\<lparr>seen := AList.update (d_msg_id d)
                      \<lparr>title = announced_title d,
                       path = path_under (output_dir cfg) (file_name (announced_title d)),
                       last_seen = now, sdp = d_sdp d\<rparr> (seen st)\<rparr>)"
  using assms by (simp add: main_loop_def Let_def)

lemma decode_not_struct: "decode pkt \<noteq> Inl StructError" "decode pkt \<noteq> Inl OSError"
  by (cases "length pkt < 8"; simp add: decode_short decode_long)+

lemma seen_sweep_pop:
  "seen (sweep_pop os ks st) = filter (\<lambda>e. fst e \<notin> set ks) (seen st)"
proof (induction ks arbitrary: st)
  case Nil
  then show ?case by simp
next
  case (Cons k ks)
  show ?case
  proof (cases "map_of (seen st) k")
    case None
    then have "k \<notin> fst ` set (seen st)" by (simp add: map_of_eq_None_iff)
    then have "filter (\<lambda>e. fst e \<notin> set (k # ks)) (seen st)
             = filter (\<lambda>e. fst e \<notin> set ks) (seen st)"
      by (intro filter_cong) auto
    then show ?thesis using None Cons.IH by simp
  next
    case (Some i)
    have "filter (\<lambda>e. fst e \<notin> set ks) (AList.delete k (seen st))
        = filter (\<lambda>e. fst e \<notin> set (k # ks)) (seen st)"
      by (simp add: AList.delete_eq) (intro filter_cong; auto)
    then show ?thesis using Some Cons.IH by simp
  qed
qed

lemma out_sweep_pop:
  assumes "distinct ks"
  shows "out (sweep_pop os ks st) =
     out st @ concat (map (\<lambda>k. case map_of (seen st) k of
                                  None \<Rightarrow> []
                                | Some i \<Rightarrow> sweep_effects os (k, i)) ks)"
  using assms
proof (induction ks arbitrary: st)
  case Nil
  then show ?case by simp
next
  case (Cons k ks)
  then have d: "distinct ks" and nk: "k \<notin> set ks" by simp_all
  show ?case
  proof (cases "map_of (seen st) k")
    case None
    then show ?thesis using Cons.IH [OF d] by simp
  next
    case (Some i)
    let ?st' = "st\<lparr>seen := AList.delete k (seen st),
                     out := out st @ sweep_effects os (k, i)\<rparr>"
    let ?f = "\<lambda>al k'. case map_of al k' of None \<Rightarrow> [] | Some i \<Rightarrow> sweep_effects os (k', i)"
    have eq: "map (?f (AList.delete k (seen st))) ks = map (?f (seen st)) ks"
      using nk by (intro map_cong) (auto simp: delete_conv')
    have eq2: "concat (map (?f (AList.delete k (seen st))) ks) = concat (map (?f (seen st)) ks)"
      by (rule arg_cong [OF eq])
    have "out (sweep_pop os (k # ks) st) = out (sweep_pop os ks ?st')"
      using Some by (simp add: sweep_effects_def)
    also have "\<dots> = out ?st' @ concat (map (?f (seen ?st')) ks)"
      by (rule Cons.IH [OF d])
    also have "\<dots> = out st @ sweep_effects os (k, i) @ concat (map (?f (seen st)) ks)"
      by (simp add: eq2)
    also have "\<dots> = out st @ concat (map (?f (seen st)) (k # ks))"
      using Some by simp
    finally show ?thesis .
  qed
qed

lemma to_delete_distinct:
  "distinct (map fst items) \<Longrightarrow> distinct (to_delete cfg now items)"
  by (simp add: to_delete_def distinct_map_filter)

lemma to_delete_mem:
  assumes "distinct (map fst items)" and "e \<in> set items"
  shows "fst e \<in> set (to_delete cfg now items) \<longleftrightarrow> expired cfg now (snd e)"
proof
  assume "fst e \<in> set (to_delete cfg now items)"
  then obtain e' where e': "e' \<in> set items" "expired cfg now (snd e')" "fst e' = fst e"
    by (auto simp: to_delete_def)
  then have "e' = e" using assms by (metis eq_key_imp_eq_value prod.collapse)
  then show "expired cfg now (snd e)" using e' by simp
next
  assume "expired cfg now (snd e)"
  then show "fst e \<in> set (to_delete cfg now items)"
    using assms(2) by (force simp: to_delete_def)
qed

lemma seen_sweeper:
  assumes "distinct (map fst (seen st))"
  shows "seen (sweeper cfg os now st) = filter (\<lambda>(mid, i). \<not> expired cfg now i) (seen st)"
  unfolding sweeper_def seen_sweep_pop
  by (intro filter_cong) (auto simp: to_delete_mem [OF assms])

lemma out_sweeper:
  assumes "distinct (map fst (seen st))"
  shows "out (sweeper cfg os now st) =
     out st @ concat (map (sweep_effects os) (filter (\<lambda>(mid, i). expired cfg now i) (seen st)))"
proof -
  have "map (\<lambda>k. case map_of (seen st) k of None \<Rightarrow> [] | Some i \<Rightarrow> sweep_effects os (k, i))
           (to_delete cfg now (seen st))
      = map (sweep_effects os) (filter (\<lambda>(mid, i). expired cfg now i) (seen st))"
    unfolding to_delete_def map_map
    using assms by (intro map_cong) (auto simp: map_of_eq_Some_iff)
  then show ?thesis
    by (simp add: sweeper_def out_sweep_pop [OF to_delete_distinct [OF assms]])
qed

lemma deletesD:
  assumes "deletes mid pkt"
  obtains d where "decode pkt = Inr d" "d_deletion d \<noteq> 0" "d_msg_id d = mid"
  using assms by (auto simp: deletes_def split: sum.splits)

lemma announcesD:
  assumes "announces mid pkt"
  obtains d where "decode pkt = Inr d" "d_deletion d = 0" "d_msg_id d = mid"
  using assms by (auto simp: announces_def split: sum.splits)

text \<open>The definitions a concrete run is evaluated with.\<close>

lemmas eval_defs =
  decode_def unpack_BBH_def Let_def bytes_of_def str_of_def strip_def decode_utf8_def
  isspace_def announced_title_def parse_title_def splitlines_def is_linebreak_def
  startswith_def or_else_def session_name_def file_name_def replace_char_def
  path_under_def posix_join_def path_str_def splitroot_def path_parts_def
  msg_new_def msg_deleted_def msg_deleted_absent_def msg_expired_def arrow_def
  main_loop_def sweeper_def to_delete_def expired_def str_int.simps is_cont_def
  announces_def deletes_def cfg_out_def os_fine_def os_no_unlink_def announce_1234_def
  delete_1234_def start_def state_A_def

lemma announce_A_start:
  "main_loop cfg_out os_fine 0 (announce_1234 ''s=A'') start = Inr state_A"
  by (simp add: eval_defs)

lemma deletes_1234: "deletes 4660 delete_1234"
  by (simp add: eval_defs)

lemma announces_1234_A: "announces 4660 (announce_1234 ''s=A'')"
  by (simp add: eval_defs)

lemma distinct_state_A: "distinct (map fst (seen state_A))"
  by (simp add: state_A_def)

lemma map_of_kept:
  assumes "distinct (map fst xs)"
  shows "map_of (filter P xs) k = Some v \<longleftrightarrow> map_of xs k = Some v \<and> P (k, v)"
proof -
  have "distinct (map fst (filter P xs))" using assms by (rule distinct_map_filter)
  then have "map_of (filter P xs) k = Some v \<longleftrightarrow> (k, v) \<in> set (filter P xs)"
    by (rule map_of_eq_Some_iff)
  also have "\<dots> \<longleftrightarrow> (k, v) \<in> set xs \<and> P (k, v)" by simp
  also have "\<dots> \<longleftrightarrow> map_of xs k = Some v \<and> P (k, v)"
    using map_of_eq_Some_iff [OF assms] by simp
  finally show ?thesis .
qed

lemma map_of_sweeper:
  assumes "distinct (map fst (seen st))"
  shows "map_of (seen (sweeper cfg os now st)) k =
     (case map_of (seen st) k of
        None \<Rightarrow> None
      | Some i \<Rightarrow> if expired cfg now i then None else Some i)"
proof -
  let ?keep = "\<lambda>(mid, i). \<not> expired cfg now i"
  have k: "map_of (filter ?keep (seen st)) k = Some v
      \<longleftrightarrow> map_of (seen st) k = Some v \<and> \<not> expired cfg now v" for v
    using map_of_kept [OF assms, of ?keep k v] by simp
  show ?thesis
  proof (cases "map_of (filter ?keep (seen st)) k")
    case None
    then show ?thesis
      using k by (auto simp: seen_sweeper [OF assms] split: option.splits)
  next
    case (Some v)
    then show ?thesis
      using k [of v] by (simp add: seen_sweeper [OF assms])
  qed
qed

text \<open>
  C7. A deletion of an identifier that is not in the directory changes nothing but the
  output, which gains the line \<open>Deleted <id>\<close>: the directory stays as it is, no file
  is unlinked and no exception is raised. After any deletion of an identifier, a second
  deletion of it is such a step.
\<close>

theorem delete_absent_is_logged_noop:
  assumes "deletes mid pkt"
  shows "(map_of (seen st) mid = None \<longrightarrow>
            main_loop cfg os now pkt st =
              Inr (st\<lparr>out := out st @ [Print (msg_deleted_absent mid)]\<rparr>)) \<and>
         (\<exists>st1. main_loop cfg os now pkt st = Inr st1 \<and>
            main_loop cfg os' now' pkt st1 =
              Inr (st1\<lparr>out := out st1 @ [Print (msg_deleted_absent mid)]\<rparr>))"
proof -
  from assms obtain d where d: "decode pkt = Inr d" "d_deletion d \<noteq> 0" "d_msg_id d = mid"
    by (rule deletesD)
  have absent: "map_of (seen s) mid = None \<Longrightarrow>
      main_loop c o' n pkt s = Inr (s\<lparr>out := out s @ [Print (msg_deleted_absent mid)]\<rparr>)"
    for c o' n s
    using main_loop_delete_absent [OF d(1,2), of s c o' n] by (simp add: d(3))
  have "\<exists>st1. main_loop cfg os now pkt st = Inr st1 \<and> map_of (seen st1) mid = None"
  proof (cases "map_of (seen st) mid")
    case None
    then show ?thesis using absent [OF None] by simp
  next
    case (Some i)
    then show ?thesis
      using main_loop_delete_present [OF d(1,2), of st i cfg os now]
      by (simp add: d(3) delete_conv')
  qed
  then show ?thesis using absent by blast
qed

theorem delete_absent_is_logged_noop_witness:
  "deletes 4660 delete_1234 \<and> map_of (seen start) 4660 = None \<and>
   main_loop cfg_out os_fine 5 delete_1234 start =
     Inr (start\<lparr>out := out start @ [Print (str_of ''Deleted 4660'')]\<rparr>) \<and>
   (\<exists>st1. main_loop cfg_out os_fine 5 delete_1234 state_A = Inr st1 \<and>
      main_loop cfg_out os_fine 6 delete_1234 st1 =
        Inr (st1\<lparr>out := out st1 @ [Print (str_of ''Deleted 4660'')]\<rparr>))"
proof -
  have a: "map_of (seen start) 4660 = None" by (simp add: start_def)
  have m: "msg_deleted_absent 4660 = str_of ''Deleted 4660''" by (simp add: eval_defs)
  show ?thesis
    using delete_absent_is_logged_noop [OF deletes_1234, of start cfg_out os_fine 5]
      delete_absent_is_logged_noop [OF deletes_1234, of state_A cfg_out os_fine 5 os_fine 6]
      a deletes_1234
    by (simp add: m)
qed

text \<open>
  C8. The entry of a deleted or expired identifier leaves the directory whether or not
  \<open>unlink\<close> raises: the answer of the file system is recorded in the effect and has no
  other influence, and neither loop is left.
\<close>

theorem removal_survives_unlink_failure:
  assumes "map_of (seen st) mid = Some i" and "distinct (map fst (seen st))"
  shows "(deletes mid pkt \<longrightarrow>
            (\<exists>st'. main_loop cfg os now pkt st = Inr st' \<and>
               map_of (seen st') mid = None \<and>
               out st' = out st @ [Unlink mid (path i) (unlink_raises os (path i)),
                                   Print (msg_deleted i mid)])) \<and>
         (expired cfg now i \<longrightarrow>
            map_of (seen (sweeper cfg os now st)) mid = None \<and>
            Unlink mid (path i) (unlink_raises os (path i))
              \<in> set (out (sweeper cfg os now st)))"
proof (intro conjI impI)
  assume "deletes mid pkt"
  then obtain d where d: "decode pkt = Inr d" "d_deletion d \<noteq> 0" "d_msg_id d = mid"
    by (rule deletesD)
  show "\<exists>st'. main_loop cfg os now pkt st = Inr st' \<and>
               map_of (seen st') mid = None \<and>
               out st' = out st @ [Unlink mid (path i) (unlink_raises os (path i)),
                                   Print (msg_deleted i mid)]"
    using main_loop_delete_present [OF d(1,2), of st i cfg os now] assms(1)
    by (simp add: d(3) delete_conv')
next
  assume e: "expired cfg now i"
  show "map_of (seen (sweeper cfg os now st)) mid = None"
    using e assms(1) by (simp add: map_of_sweeper [OF assms(2)])
next
  assume e: "expired cfg now i"
  have "(mid, i) \<in> set (seen st)" using assms(1) by (rule map_of_SomeD)
  then have "(mid, i) \<in> set (filter (\<lambda>(mid, i). expired cfg now i) (seen st))"
    using e by simp
  then show "Unlink mid (path i) (unlink_raises os (path i))
              \<in> set (out (sweeper cfg os now st))"
    unfolding out_sweeper [OF assms(2)]
    by (force simp: sweep_effects_def)
qed

theorem removal_survives_unlink_failure_witness:
  "map_of (seen state_A) 4660 =
     Some \<lparr>title = str_of ''A'', path = str_of ''out/A.sdp'', last_seen = 0,
           sdp = str_of ''s=A''\<rparr> \<and>
   distinct (map fst (seen state_A)) \<and> deletes 4660 delete_1234 \<and>
   unlink_raises os_no_unlink (str_of ''out/A.sdp'') \<and>
   (\<exists>st'. main_loop cfg_out os_no_unlink 301 delete_1234 state_A = Inr st' \<and>
      map_of (seen st') 4660 = None) \<and>
   expired cfg_out 301 \<lparr>title = str_of ''A'', path = str_of ''out/A.sdp'', last_seen = 0,
           sdp = str_of ''s=A''\<rparr> \<and>
   map_of (seen (sweeper cfg_out os_no_unlink 301 state_A)) 4660 = None \<and>
   Unlink 4660 (str_of ''out/A.sdp'') True \<in> set (out (sweeper cfg_out os_no_unlink 301 state_A))"
proof -
  let ?i = "\<lparr>title = str_of ''A'', path = str_of ''out/A.sdp'', last_seen = 0,
           sdp = str_of ''s=A''\<rparr>"
  have p: "map_of (seen state_A) 4660 = Some ?i" by (simp add: state_A_def)
  have e: "expired cfg_out 301 ?i" by (simp add: expired_def cfg_out_def)
  have u: "unlink_raises os_no_unlink (str_of ''out/A.sdp'')" by (simp add: os_no_unlink_def)
  show ?thesis
    using removal_survives_unlink_failure [OF p distinct_state_A,
        of delete_1234 cfg_out os_no_unlink 301] p e u deletes_1234 distinct_state_A
    by auto
qed

lemma main_loop_distinct:
  assumes "main_loop cfg os now pkt st = Inr st'" and "distinct (map fst (seen st))"
  shows "distinct (map fst (seen st'))"
  using assms
  by (auto simp: main_loop_def Let_def distinct_update distinct_delete
      split: sum.splits error.splits option.splits if_splits)

lemma sweeper_distinct:
  "distinct (map fst (seen st)) \<Longrightarrow> distinct (map fst (seen (sweeper cfg os now st)))"
  by (simp add: seen_sweeper distinct_map_filter)

text \<open>Every state a run reaches from the empty directory has one entry per identifier.\<close>

lemma run_distinct:
  assumes "run cfg evs st = Inr st'" and "distinct (map fst (seen st))"
  shows "distinct (map fst (seen st'))"
  using assms
proof (induction evs arbitrary: st)
  case Nil
  then show ?case by simp
next
  case (Cons e evs)
  obtain os ev where e: "e = (os, ev)" by (cases e)
  from Cons.prems(1) obtain s1 where s1: "step cfg e st = Inr s1" "run cfg evs s1 = Inr st'"
    by (auto split: sum.splits)
  have "distinct (map fst (seen s1))"
  proof (cases ev)
    case (Datagram t p)
    then show ?thesis using s1(1) e main_loop_distinct [OF _ Cons.prems(2)] by simp
  next
    case (Sweep t)
    then show ?thesis using s1(1) e sweeper_distinct [OF Cons.prems(2)] by auto
  qed
  then show ?case using Cons.IH [OF s1(2)] by simp
qed

lemma reachable_distinct: "run cfg evs start = Inr st \<Longrightarrow> distinct (map fst (seen st))"
  by (erule run_distinct) (simp add: start_def)

lemma refresh_entry:
  assumes "announces mid pkt" and "map_of (seen st) mid = Some i"
  shows "\<exists>st1 i1. main_loop cfg os t pkt st = Inr st1 \<and> out st1 = out st \<and>
           map_of (seen st1) mid = Some i1 \<and> last_seen i1 = t"
proof -
  from assms(1) obtain d where d: "decode pkt = Inr d" "d_deletion d = 0" "d_msg_id d = mid"
    by (rule announcesD)
  show ?thesis
    using main_loop_announce_again [OF d(1,2), of st i cfg os t] assms(2)
    by (simp add: d(3) update_conv')
qed

text \<open>
  C5. One pass of the sweeper, on a directory with one entry per identifier, keeps
  exactly the entries with \<open>now - last_seen \<le> expire_sec\<close>, in their order, and for
  each of the others, those with \<open>now - last_seen > expire_sec\<close>, it unlinks the file
  and prints one line. Hence an entry refreshed at time \<open>t\<close> is gone after the next pass
  if and only if \<open>now - t > expire_sec\<close>. An eviction removes the entry and unlinks its
  path as a deletion of the same identifier does.
\<close>

theorem sweep_evicts_exactly_expired:
  assumes "distinct (map fst (seen st))"
  shows "seen (sweeper cfg os now st) =
           filter (\<lambda>(mid, i). \<not> real_of_int (expire_sec cfg) < now - last_seen i) (seen st) \<and>
         out (sweeper cfg os now st) =
           out st @ concat (map (sweep_effects os)
             (filter (\<lambda>(mid, i). real_of_int (expire_sec cfg) < now - last_seen i) (seen st))) \<and>
         (map_of (seen st) mid = Some i \<and> announces mid pkt \<longrightarrow>
            (\<exists>st1. main_loop cfg os1 t pkt st = Inr st1 \<and>
               (map_of (seen (sweeper cfg os now st1)) mid = None
                  \<longleftrightarrow> real_of_int (expire_sec cfg) < now - t))) \<and>
         (map_of (seen st) mid = Some i \<and> deletes mid pkt \<longrightarrow>
            (\<exists>st'. main_loop cfg os now pkt st = Inr st' \<and>
               seen st' = filter (\<lambda>e. fst e \<noteq> mid) (seen st) \<and>
               filter is_unlink (drop (length (out st)) (out st')) =
                 filter is_unlink (sweep_effects os (mid, i))))"
proof (intro conjI impI)
  show "seen (sweeper cfg os now st) =
           filter (\<lambda>(mid, i). \<not> real_of_int (expire_sec cfg) < now - last_seen i) (seen st)"
    using seen_sweeper [OF assms, of cfg os now] by (simp add: expired_def)
next
  show "out (sweeper cfg os now st) =
           out st @ concat (map (sweep_effects os)
             (filter (\<lambda>(mid, i). real_of_int (expire_sec cfg) < now - last_seen i) (seen st)))"
    using out_sweeper [OF assms, of cfg os now] by (simp add: expired_def)
next
  assume a: "map_of (seen st) mid = Some i \<and> announces mid pkt"
  then obtain st1 i1 where s1: "main_loop cfg os1 t pkt st = Inr st1"
    "map_of (seen st1) mid = Some i1" "last_seen i1 = t"
    using refresh_entry [of mid pkt st i cfg os1 t] by blast
  have "distinct (map fst (seen st1))" by (rule main_loop_distinct [OF s1(1) assms])
  then have "map_of (seen (sweeper cfg os now st1)) mid = None
      \<longleftrightarrow> real_of_int (expire_sec cfg) < now - t"
    using s1(2,3) by (simp add: map_of_sweeper expired_def)
  with s1(1) show "\<exists>st1. main_loop cfg os1 t pkt st = Inr st1 \<and>
               (map_of (seen (sweeper cfg os now st1)) mid = None
                  \<longleftrightarrow> real_of_int (expire_sec cfg) < now - t)"
    by auto
next
  assume a: "map_of (seen st) mid = Some i \<and> deletes mid pkt"
  then obtain d where d: "decode pkt = Inr d" "d_deletion d \<noteq> 0" "d_msg_id d = mid"
    by (auto elim: deletesD)
  have "AList.delete mid (seen st) = filter (\<lambda>e. fst e \<noteq> mid) (seen st)"
    by (simp add: AList.delete_eq) (intro filter_cong; auto)
  then show "\<exists>st'. main_loop cfg os now pkt st = Inr st' \<and>
               seen st' = filter (\<lambda>e. fst e \<noteq> mid) (seen st) \<and>
               filter is_unlink (drop (length (out st)) (out st')) =
                 filter is_unlink (sweep_effects os (mid, i))"
    using main_loop_delete_present [OF d(1,2), of st i cfg os now] a
    by (simp add: d(3) sweep_effects_def is_unlink_def)
qed

theorem sweep_evicts_exactly_expired_witness:
  "distinct (map fst (seen state_A)) \<and>
   seen (sweeper cfg_out os_fine 300 state_A) = seen state_A \<and>
   seen (sweeper cfg_out os_fine 301 state_A) = [] \<and>
   out (sweeper cfg_out os_fine 301 state_A) =
     out state_A @ [Unlink 4660 (str_of ''out/A.sdp'') False,
                    Print (str_of ''Expired: A (4660)'' @ [32, 8594, 32]
                             @ str_of ''removed out/A.sdp'')] \<and>
   map_of (seen state_A) 4660 =
     Some \<lparr>title = str_of ''A'', path = str_of ''out/A.sdp'', last_seen = 0,
           sdp = str_of ''s=A''\<rparr> \<and>
   announces 4660 (announce_1234 ''s=A'') \<and> deletes 4660 delete_1234 \<and>
   (\<exists>st1. main_loop cfg_out os_fine 200 (announce_1234 ''s=A'') state_A = Inr st1 \<and>
      map_of (seen (sweeper cfg_out os_fine 301 st1)) 4660 \<noteq> None) \<and>
   (\<exists>st'. main_loop cfg_out os_fine 301 delete_1234 state_A = Inr st' \<and> seen st' = [] \<and>
      filter is_unlink (drop (length (out state_A)) (out st')) =
        [Unlink 4660 (str_of ''out/A.sdp'') False])"
proof -
  let ?i = "\<lparr>title = str_of ''A'', path = str_of ''out/A.sdp'', last_seen = 0,
           sdp = str_of ''s=A''\<rparr>"
  have p: "map_of (seen state_A) 4660 = Some ?i" by (simp add: state_A_def)
  have s: "seen state_A = [(4660, ?i)]" by (simp add: state_A_def)
  have e: "sweep_effects os_fine (4660, ?i) =
     [Unlink 4660 (str_of ''out/A.sdp'') False,
      Print (str_of ''Expired: A (4660)'' @ [32, 8594, 32] @ str_of ''removed out/A.sdp'')]"
    by (simp add: sweep_effects_def eval_defs)
  have u: "filter is_unlink (sweep_effects os_fine (4660, ?i)) =
     [Unlink 4660 (str_of ''out/A.sdp'') False]"
    by (simp add: e is_unlink_def)
  note w1 = sweep_evicts_exactly_expired [OF distinct_state_A,
      of cfg_out os_fine 301 4660 ?i "announce_1234 ''s=A''" os_fine 200]
  note w2 = sweep_evicts_exactly_expired [OF distinct_state_A,
      of cfg_out os_fine 300 4660 ?i delete_1234 os_fine 0]
  note w3 = sweep_evicts_exactly_expired [OF distinct_state_A,
      of cfg_out os_fine 301 4660 ?i delete_1234 os_fine 0]
  have c1: "seen (sweeper cfg_out os_fine 300 state_A) = seen state_A"
    using w2 by (simp add: s cfg_out_def)
  have c2: "seen (sweeper cfg_out os_fine 301 state_A) = []"
    using w1 by (simp add: s cfg_out_def)
  have c3: "out (sweeper cfg_out os_fine 301 state_A) =
     out state_A @ [Unlink 4660 (str_of ''out/A.sdp'') False,
                    Print (str_of ''Expired: A (4660)'' @ [32, 8594, 32]
                             @ str_of ''removed out/A.sdp'')]"
    using w1 by (simp add: s cfg_out_def e)
  have c4: "\<exists>st1. main_loop cfg_out os_fine 200 (announce_1234 ''s=A'') state_A = Inr st1 \<and>
      map_of (seen (sweeper cfg_out os_fine 301 st1)) 4660 \<noteq> None"
    using w1 p announces_1234_A by (simp add: cfg_out_def)
  have c5: "\<exists>st'. main_loop cfg_out os_fine 301 delete_1234 state_A = Inr st' \<and> seen st' = [] \<and>
      filter is_unlink (drop (length (out state_A)) (out st')) =
        [Unlink 4660 (str_of ''out/A.sdp'') False]"
    using w3 p deletes_1234 by (simp add: s u)
  show ?thesis using distinct_state_A c1 c2 c3 p announces_1234_A deletes_1234 c4 c5 by blast
qed

lemma run_refreshes:
  assumes "\<forall>e \<in> set evs. \<exists>os' t p. e = (os', Datagram t p) \<and> announces mid p"
    and "map_of (seen s) mid \<noteq> None" and "distinct (map fst (seen s))"
  shows "\<exists>s'. run cfg evs s = Inr s' \<and> out s' = out s \<and> map_of (seen s') mid \<noteq> None \<and>
           distinct (map fst (seen s'))"
  using assms
proof (induction evs arbitrary: s)
  case Nil
  then show ?case by simp
next
  case (Cons e evs)
  from Cons.prems(1) obtain os' t p where e: "e = (os', Datagram t p)" and a: "announces mid p"
    by auto
  from Cons.prems(2) obtain i where i: "map_of (seen s) mid = Some i" by auto
  from refresh_entry [OF a i, of cfg os' t] obtain s1 where
    s1: "main_loop cfg os' t p s = Inr s1" "out s1 = out s" "map_of (seen s1) mid \<noteq> None"
    by auto
  have d1: "distinct (map fst (seen s1))" by (rule main_loop_distinct [OF s1(1) Cons.prems(3)])
  have rest: "\<forall>e \<in> set evs. \<exists>os' t p. e = (os', Datagram t p) \<and> announces mid p"
    using Cons.prems(1) by simp
  from Cons.IH [OF rest s1(3) d1] obtain s' where
    s': "run cfg evs s1 = Inr s'" "out s' = out s1" "map_of (seen s') mid \<noteq> None"
    "distinct (map fst (seen s'))"
    by blast
  have "run cfg (e # evs) s = Inr s'" using e s1(1) s'(1) by simp
  then show ?case using s' s1(2) by simp
qed

lemma unlink_iff_delete:
  assumes "map_of (seen s) mid = Some i"
  shows "case main_loop cfg os t p s of
           Inl e \<Rightarrow> \<not> deletes mid p
         | Inr s2 \<Rightarrow> \<exists>new. out s2 = out s @ new \<and>
                      (list_ex (removes_for mid) new \<longleftrightarrow> deletes mid p)"
proof (cases "decode p")
  case (Inl e)
  then have "e = TooShort" using decode_not_struct [of p] by (cases e) auto
  then show ?thesis using Inl by (simp add: main_loop_def deletes_def)
next
  case (Inr d)
  show ?thesis
  proof (cases "d_deletion d = 0")
    case True
    then show ?thesis using Inr
      by (auto simp: main_loop_def Let_def deletes_def removes_for_def)
  next
    case False
    show ?thesis
    proof (cases "map_of (seen s) (d_msg_id d)")
      case None
      then have "d_msg_id d \<noteq> mid" using assms by auto
      then show ?thesis using Inr False None
        by (simp add: main_loop_delete_absent deletes_def removes_for_def)
    next
      case (Some j)
      then show ?thesis using Inr False
        by (simp add: main_loop_delete_present deletes_def removes_for_def)
    qed
  qed
qed

lemma list_ex_removes_sweep:
  "list_ex (removes_for mid) (concat (map (sweep_effects os) xs)) \<longleftrightarrow> mid \<in> fst ` set xs"
  by (induction xs) (auto simp: sweep_effects_def removes_for_def)

lemma unlink_iff_expired:
  assumes "map_of (seen s) mid = Some i" and "distinct (map fst (seen s))"
  shows "\<exists>new. out (sweeper cfg os t s) = out s @ new \<and>
           (list_ex (removes_for mid) new \<longleftrightarrow> real_of_int (expire_sec cfg) < t - last_seen i)"
proof -
  have m: "(mid, i) \<in> set (seen s)" using assms(1) by (rule map_of_SomeD)
  have "mid \<in> fst ` set (filter (\<lambda>(mid, i). expired cfg t i) (seen s)) \<longleftrightarrow> expired cfg t i"
  proof
    assume "mid \<in> fst ` set (filter (\<lambda>(mid, i). expired cfg t i) (seen s))"
    then obtain j where j: "(mid, j) \<in> set (seen s)" "expired cfg t j" by auto
    then have "j = i" using m assms(2) by (meson eq_key_imp_eq_value)
    then show "expired cfg t i" using j by simp
  next
    assume "expired cfg t i"
    then show "mid \<in> fst ` set (filter (\<lambda>(mid, i). expired cfg t i) (seen s))"
      using m by force
  qed
  then show ?thesis
    by (simp add: out_sweeper [OF assms(2)] list_ex_removes_sweep expired_def)
qed

lemma decode_announce_A:
  "decode (announce_1234 ''s=A'') =
     Inr \<lparr>d_b0 = 32, d_auth_len = 0, d_msg_id = 4660, d_deletion = 0, d_off = 8,
          d_payload = [115, 61, 65], d_sdp = [115, 61, 65]\<rparr>"
  by (simp add: eval_defs)

lemma announces_1234_B: "announces 4660 (announce_1234 ''s=B'')"
  by (simp add: eval_defs)

text \<open>
  C1. From a directory without the identifier, any sequence of announcements of that
  identifier, the first one written without error, runs to its end and adds to the
  output exactly the write and the line of the first announcement: one write, no unlink.
  In the state reached, a datagram makes the loop unlink for the identifier if and
  only if it is a deletion of it, and a sweeper pass does so if and only if the entry
  is older than \<open>expire_sec\<close>. An announcement whose write raises leaves the loop; it
  is not a deletion.
\<close>

theorem upserts_write_once:
  assumes "distinct (map fst (seen st))" and "map_of (seen st) mid = None"
    and "decode pkt = Inr d" and "d_deletion d = 0" and "d_msg_id d = mid"
    and "\<not> write_raises os (path_under (output_dir cfg) (file_name (announced_title d)))"
    and "\<forall>e \<in> set evs. \<exists>os' t p. e = (os', Datagram t p) \<and> announces mid p"
  shows "\<exists>st' i. run cfg ((os, Datagram now pkt) # evs) st = Inr st' \<and>
           out st' = out st @
             [Write (path_under (output_dir cfg) (file_name (announced_title d)))
                (d_sdp d @ [10]),
              Print (msg_new (announced_title d)
                (path_under (output_dir cfg) (file_name (announced_title d))))] \<and>
           map_of (seen st') mid = Some i \<and>
           (\<forall>os2 t2 p2.
              case main_loop cfg os2 t2 p2 st' of
                Inl e \<Rightarrow> \<not> deletes mid p2
              | Inr st2 \<Rightarrow> \<exists>new. out st2 = out st' @ new \<and>
                            (list_ex (removes_for mid) new \<longleftrightarrow> deletes mid p2)) \<and>
           (\<forall>os2 t2. \<exists>new. out (sweeper cfg os2 t2 st') = out st' @ new \<and>
              (list_ex (removes_for mid) new
                 \<longleftrightarrow> real_of_int (expire_sec cfg) < t2 - last_seen i))"
proof -
  let ?p = "path_under (output_dir cfg) (file_name (announced_title d))"
  let ?st1 = "st\<lparr>seen := AList.update (d_msg_id d)
                      \<lparr>title = announced_title d, path = ?p, last_seen = now,
                       sdp = d_sdp d\<rparr> (seen st),
             out := out st @ [Write ?p (d_sdp d @ [10]),
                              Print (msg_new (announced_title d) ?p)]\<rparr>"
  have absent: "map_of (seen st) (d_msg_id d) = None" using assms(2,5) by simp
  have s1: "main_loop cfg os now pkt st = Inr ?st1"
    by (rule main_loop_announce_first [OF assms(3,4) absent assms(6)])
  have p1: "map_of (seen ?st1) mid \<noteq> None" using assms(5) by (simp add: update_conv')
  have d1: "distinct (map fst (seen ?st1))" by (rule main_loop_distinct [OF s1 assms(1)])
  from run_refreshes [OF assms(7) p1 d1, where cfg = cfg] obtain st' where
    st': "run cfg evs ?st1 = Inr st'" "out st' = out ?st1" "map_of (seen st') mid \<noteq> None"
    "distinct (map fst (seen st'))"
    by blast
  from st'(3) obtain i where i: "map_of (seen st') mid = Some i" by auto
  have r: "run cfg ((os, Datagram now pkt) # evs) st = Inr st'" using s1 st'(1) by simp
  have o: "out st' = out st @ [Write ?p (d_sdp d @ [10]), Print (msg_new (announced_title d) ?p)]"
    using st'(2) by simp
  show ?thesis
    using r o i unlink_iff_delete [OF i, where cfg = cfg]
      unlink_iff_expired [OF i st'(4), where cfg = cfg]
    by blast
qed


theorem upserts_write_once_witness:
  "distinct (map fst (seen start)) \<and> map_of (seen start) 4660 = None \<and>
   announces 4660 (announce_1234 ''s=A'') \<and> announces 4660 (announce_1234 ''s=B'') \<and>
   (\<exists>st'. run cfg_out [(os_fine, Datagram 0 (announce_1234 ''s=A'')),
                        (os_fine, Datagram 1 (announce_1234 ''s=A'')),
                        (os_fine, Datagram 2 (announce_1234 ''s=B''))] start = Inr st' \<and>
      filter is_write (out st') = [Write (str_of ''out/A.sdp'') (str_of ''s=A'' @ [10])] \<and>
      filter is_unlink (out st') = [])"
proof -
  let ?d = "\<lparr>d_b0 = 32, d_auth_len = 0, d_msg_id = 4660, d_deletion = 0, d_off = 8,
          d_payload = [115, 61, 65], d_sdp = [115, 61, 65]\<rparr>"
  let ?evs = "[(os_fine, Datagram 1 (announce_1234 ''s=A'')),
               (os_fine, Datagram 2 (announce_1234 ''s=B''))]"
  have h1: "distinct (map fst (seen start))" by (simp add: start_def)
  have h2: "map_of (seen start) 4660 = None" by (simp add: start_def)
  have h4: "d_deletion ?d = 0" by simp
  have h5: "d_msg_id ?d = 4660" by simp
  have h6: "\<not> write_raises os_fine
      (path_under (output_dir cfg_out) (file_name (announced_title ?d)))"
    by (simp add: os_fine_def)
  have h7: "\<forall>e \<in> set ?evs. \<exists>os' t p. e = (os', Datagram t p) \<and> announces 4660 p"
    using announces_1234_A announces_1234_B by simp
  have t: "announced_title ?d = str_of ''A''" by (simp add: eval_defs)
  have p: "path_under (output_dir cfg_out) (file_name (str_of ''A'')) = str_of ''out/A.sdp''"
    by (simp add: eval_defs)
  from upserts_write_once [OF h1 h2 decode_announce_A h4 h5 h6 h7, of 0]
  obtain st' where "run cfg_out ((os_fine, Datagram 0 (announce_1234 ''s=A'')) # ?evs) start
      = Inr st'"
    "out st' = out start @ [Write (str_of ''out/A.sdp'') (d_sdp ?d @ [10]),
        Print (msg_new (str_of ''A'') (str_of ''out/A.sdp''))]"
    unfolding t p by blast
  then have "run cfg_out ((os_fine, Datagram 0 (announce_1234 ''s=A'')) # ?evs) start = Inr st' \<and>
      filter is_write (out st') = [Write (str_of ''out/A.sdp'') (str_of ''s=A'' @ [10])] \<and>
      filter is_unlink (out st') = []"
    by (simp add: start_def is_write_def is_unlink_def str_of_def)
  then show ?thesis using h1 h2 announces_1234_A announces_1234_B by blast
qed

text \<open>
  C4 against the code. A second announcement of an identifier assigns the whole entry
  anew: title, path and document become those of the second announcement, and no file
  is written for them. After \<open>s=A\<close> and then \<open>s=B\<close> under identifier 0x1234, the
  only file written is \<open>out/A.sdp\<close>, the entry names \<open>out/B.sdp\<close>, and the deletion
  unlinks \<open>out/B.sdp\<close>, a file that was never written, while \<open>out/A.sdp\<close> stays.
  The older receiver stores an entry only when the identifier is new and keeps the first
  document.
\<close>

theorem reannounce_replaces_entry:
  "run cfg_out [(os_fine, Datagram 0 (announce_1234 ''s=A'')),
                (os_fine, Datagram 1 (announce_1234 ''s=B''))] start =
     Inr \<lparr>seen = [(4660, \<lparr>title = str_of ''B'', path = str_of ''out/B.sdp'', last_seen = 1,
                           sdp = str_of ''s=B''\<rparr>)],
          out = [Write (str_of ''out/A.sdp'') (str_of ''s=A'' @ [10]),
                 Print (str_of ''New: A'' @ [32, 8594, 32] @ str_of ''wrote out/A.sdp'')]\<rparr> \<and>
   run cfg_out [(os_fine, Datagram 0 (announce_1234 ''s=A'')),
                (os_fine, Datagram 1 (announce_1234 ''s=B'')),
                (os_fine, Datagram 2 delete_1234)] start =
     Inr \<lparr>seen = [],
          out = [Write (str_of ''out/A.sdp'') (str_of ''s=A'' @ [10]),
                 Print (str_of ''New: A'' @ [32, 8594, 32] @ str_of ''wrote out/A.sdp''),
                 Unlink 4660 (str_of ''out/B.sdp'') False,
                 Print (str_of ''Deleted: B (4660)'' @ [32, 8594, 32]
                          @ str_of ''removed out/B.sdp'')]\<rparr> \<and>
   receiver_loop os_fine (announce_1234 ''s=A'') \<lparr>rseen = [], rout = []\<rparr> =
     Inr \<lparr>rseen = [(4660, str_of ''s=A'')],
          rout = [Write (str_of ''A.sdp'') (str_of ''s=A'' @ [10]),
                  Print (str_of ''New: A'' @ [32, 8594, 32] @ str_of ''wrote A.sdp'')]\<rparr> \<and>
   receiver_loop os_fine (announce_1234 ''s=B'')
       \<lparr>rseen = [(4660, str_of ''s=A'')],
        rout = [Write (str_of ''A.sdp'') (str_of ''s=A'' @ [10]),
                Print (str_of ''New: A'' @ [32, 8594, 32] @ str_of ''wrote A.sdp'')]\<rparr> =
     Inr \<lparr>rseen = [(4660, str_of ''s=A'')],
          rout = [Write (str_of ''A.sdp'') (str_of ''s=A'' @ [10]),
                  Print (str_of ''New: A'' @ [32, 8594, 32] @ str_of ''wrote A.sdp'')]\<rparr>"
  by (simp add: eval_defs receiver_loop_def)

lemma decode_sdp:
  assumes "decode pkt = Inr d"
  shows "d_sdp d = strip (decode_utf8 (d_payload d))"
    and "d_payload d = drop (8 + d_auth_len d * 4) pkt"
proof -
  have l: "8 \<le> length pkt" using assms by (cases "length pkt < 8") (simp_all add: decode_short)
  show "d_sdp d = strip (decode_utf8 (d_payload d))"
    and "d_payload d = drop (8 + d_auth_len d * 4) pkt"
    using assms unfolding decode_long [OF l] by auto
qed

text \<open>
  C9. For a first announcement the title is the \<open>s=\<close> line of the document, or
  \<open>session_<id>\<close> when there is none or it is empty; the file name is the title with
  each space replaced by an underscore, followed by \<open>.sdp\<close>, every other character
  kept; the path recorded and written is that name joined to the output directory (the
  older receiver writes the bare name). A slash in the title is a slash in the file
  name, so the path may leave the directory: \<open>out/../x.sdp\<close> for the title \<open>../x\<close>,
  \<open>/tmp/x.sdp\<close> for \<open>/tmp/x\<close>.
\<close>

theorem sink_path_from_title:
  assumes "decode pkt = Inr d" and "d_deletion d = 0"
    and "map_of (seen st) (d_msg_id d) = None"
    and "\<not> write_raises os (path_under (output_dir cfg) (file_name (announced_title d)))"
  shows "announced_title d =
           (case parse_title (d_sdp d) of
              None \<Rightarrow> str_of ''session_'' @ str_int (d_msg_id d)
            | Some t \<Rightarrow> if t = [] then str_of ''session_'' @ str_int (d_msg_id d) else t) \<and>
         file_name (announced_title d) =
           map (\<lambda>c. if c = 32 then 95 else c) (announced_title d) @ str_of ''.sdp'' \<and>
         (\<exists>st'. main_loop cfg os now pkt st = Inr st' \<and>
            map_of (seen st') (d_msg_id d) =
              Some \<lparr>title = announced_title d,
                    path = path_under (output_dir cfg) (file_name (announced_title d)),
                    last_seen = now, sdp = d_sdp d\<rparr> \<and>
            out st' = out st @
              [Write (path_under (output_dir cfg) (file_name (announced_title d)))
                 (d_sdp d @ [10]),
               Print (msg_new (announced_title d)
                 (path_under (output_dir cfg) (file_name (announced_title d))))]) \<and>
         (map_of (rseen rst) (d_msg_id d) = None \<and>
          \<not> write_raises os (file_name (announced_title d)) \<longrightarrow>
            (\<exists>rst' line. receiver_loop os pkt rst = Inr rst' \<and>
               rout rst' = rout rst @
                 [Write (file_name (announced_title d)) (d_sdp d @ [10]), Print line])) \<and>
         (47 \<in> set (announced_title d) \<longrightarrow> 47 \<in> set (file_name (announced_title d))) \<and>
         path_under (str_of ''out'') (file_name (str_of ''../x'')) = str_of ''out/../x.sdp'' \<and>
         path_under (str_of ''out'') (file_name (str_of ''/tmp/x'')) = str_of ''/tmp/x.sdp''"
proof (intro conjI)
  show "announced_title d =
           (case parse_title (d_sdp d) of
              None \<Rightarrow> str_of ''session_'' @ str_int (d_msg_id d)
            | Some t \<Rightarrow> if t = [] then str_of ''session_'' @ str_int (d_msg_id d) else t)"
    by (simp add: announced_title_def or_else_def session_name_def)
next
  show "file_name (announced_title d) =
           map (\<lambda>c. if c = 32 then 95 else c) (announced_title d) @ str_of ''.sdp''"
    by (simp add: file_name_def replace_char_def)
next
  show "\<exists>st'. main_loop cfg os now pkt st = Inr st' \<and>
            map_of (seen st') (d_msg_id d) =
              Some \<lparr>title = announced_title d,
                    path = path_under (output_dir cfg) (file_name (announced_title d)),
                    last_seen = now, sdp = d_sdp d\<rparr> \<and>
            out st' = out st @
              [Write (path_under (output_dir cfg) (file_name (announced_title d)))
                 (d_sdp d @ [10]),
               Print (msg_new (announced_title d)
                 (path_under (output_dir cfg) (file_name (announced_title d))))]"
    using main_loop_announce_first [OF assms, of now] by (simp add: update_conv')
next
  show "map_of (rseen rst) (d_msg_id d) = None \<and>
          \<not> write_raises os (file_name (announced_title d)) \<longrightarrow>
            (\<exists>rst' line. receiver_loop os pkt rst = Inr rst' \<and>
               rout rst' = rout rst @
                 [Write (file_name (announced_title d)) (d_sdp d @ [10]), Print line])"
    using assms(1,2) by (simp add: receiver_loop_def Let_def)
next
  show "47 \<in> set (announced_title d) \<longrightarrow> 47 \<in> set (file_name (announced_title d))"
    by (auto simp: file_name_def replace_char_def)
next
  show "path_under (str_of ''out'') (file_name (str_of ''../x'')) = str_of ''out/../x.sdp''"
    by (simp add: eval_defs)
next
  show "path_under (str_of ''out'') (file_name (str_of ''/tmp/x'')) = str_of ''/tmp/x.sdp''"
    by (simp add: eval_defs)
qed


theorem sink_path_from_title_witness:
  "\<exists>d. decode (announce_1234 ''s=../my feed'') = Inr d \<and> d_deletion d = 0 \<and>
      map_of (seen start) (d_msg_id d) = None \<and>
      \<not> write_raises os_fine (path_under (output_dir cfg_out) (file_name (announced_title d))) \<and>
      announced_title d = str_of ''../my feed'' \<and>
      47 \<in> set (announced_title d) \<and>
      map_of (rseen \<lparr>rseen = [], rout = []\<rparr>) (d_msg_id d) = None \<and>
      \<not> write_raises os_fine (file_name (announced_title d)) \<and>
      (\<exists>st'. main_loop cfg_out os_fine 0 (announce_1234 ''s=../my feed'') start = Inr st' \<and>
         out st' = [Write (str_of ''out/../my_feed.sdp'') (str_of ''s=../my feed'' @ [10]),
                    Print (str_of ''New: ../my feed'' @ [32, 8594, 32]
                             @ str_of ''wrote out/../my_feed.sdp'')]) \<and>
      (\<exists>rst' line. receiver_loop os_fine (announce_1234 ''s=../my feed'')
                       \<lparr>rseen = [], rout = []\<rparr> = Inr rst' \<and>
         rout rst' = [Write (str_of ''../my_feed.sdp'') (str_of ''s=../my feed'' @ [10]),
                      Print line])"
proof -
  let ?pkt = "announce_1234 ''s=../my feed''"
  let ?d = "\<lparr>d_b0 = 32, d_auth_len = 0, d_msg_id = 4660, d_deletion = 0, d_off = 8,
          d_payload = bytes_of ''s=../my feed'', d_sdp = str_of ''s=../my feed''\<rparr>"
  have dec: "decode ?pkt = Inr ?d" by (simp add: eval_defs)
  have h2: "d_deletion ?d = 0" by simp
  have h3: "map_of (seen start) (d_msg_id ?d) = None" by (simp add: start_def)
  have h4: "\<not> write_raises os_fine p" for p by (simp add: os_fine_def)
  have h5: "map_of (rseen \<lparr>rseen = [], rout = []\<rparr>) (d_msg_id ?d) = None" by simp
  have t: "announced_title ?d = str_of ''../my feed''" by (simp add: eval_defs)
  have f: "file_name (str_of ''../my feed'') = str_of ''../my_feed.sdp''"
    by (simp add: eval_defs)
  have p: "path_under (output_dir cfg_out) (str_of ''../my_feed.sdp'')
      = str_of ''out/../my_feed.sdp''"
    by (simp add: eval_defs)
  have m: "msg_new (str_of ''../my feed'') (str_of ''out/../my_feed.sdp'') =
      str_of ''New: ../my feed'' @ [32, 8594, 32] @ str_of ''wrote out/../my_feed.sdp''"
    by (simp add: eval_defs)
  have s: "47 \<in> set (str_of ''../my feed'')" by (simp add: str_of_def)
  note w = sink_path_from_title [OF dec h2 h3 h4, where cfg = cfg_out and now = 0
      and rst = "\<lparr>rseen = [], rout = []\<rparr>"]
  have c1: "\<exists>st'. main_loop cfg_out os_fine 0 ?pkt start = Inr st' \<and>
         out st' = [Write (str_of ''out/../my_feed.sdp'') (str_of ''s=../my feed'' @ [10]),
                    Print (str_of ''New: ../my feed'' @ [32, 8594, 32]
                             @ str_of ''wrote out/../my_feed.sdp'')]"
    using w unfolding t f p m by (auto simp: start_def)
  have c2: "\<exists>rst' line. receiver_loop os_fine ?pkt \<lparr>rseen = [], rout = []\<rparr> = Inr rst' \<and>
         rout rst' = [Write (str_of ''../my_feed.sdp'') (str_of ''s=../my feed'' @ [10]),
                      Print line]"
    using w h4 unfolding t f by auto
  show ?thesis
    using dec h2 h3 h4 h5 t s c1 c2 by (intro exI [of _ ?d]) (simp only: t, blast)
qed

text \<open>
  C10. The document of an announcement is the payload decoded as UTF-8 with U+FFFD for
  what is ill-formed, stripped of white space at both ends: that text is recorded in
  the entry at every announcement, and at the first one the file receives it followed
  by one line feed. It is not the payload itself: a leading blank and a final line feed
  are gone, and the byte 0xFF has become U+FFFD.
\<close>

theorem document_is_stripped_text:
  assumes "decode pkt = Inr d" and "d_deletion d = 0"
  shows "d_payload d = drop (8 + d_auth_len d * 4) pkt \<and>
         d_sdp d = strip (decode_utf8 (d_payload d)) \<and>
         (map_of (seen st) (d_msg_id d) \<noteq> None \<longrightarrow>
            (\<exists>st' i. main_loop cfg os now pkt st = Inr st' \<and> out st' = out st \<and>
               map_of (seen st') (d_msg_id d) = Some i \<and> sdp i = d_sdp d)) \<and>
         (map_of (seen st) (d_msg_id d) = None \<and>
          \<not> write_raises os (path_under (output_dir cfg) (file_name (announced_title d))) \<longrightarrow>
            (\<exists>st' i line. main_loop cfg os now pkt st = Inr st' \<and>
               map_of (seen st') (d_msg_id d) = Some i \<and> sdp i = d_sdp d \<and>
               out st' = out st @
                 [Write (path_under (output_dir cfg) (file_name (announced_title d)))
                    (d_sdp d @ [10]), Print line])) \<and>
         strip (decode_utf8 (bytes_of '' v=0\<newline>'')) = str_of ''v=0'' \<and>
         decode_utf8 [255, 65] = [65533, 65]"
proof (intro conjI impI)
  show "d_payload d = drop (8 + d_auth_len d * 4) pkt"
    by (rule decode_sdp(2) [OF assms(1)])
next
  show "d_sdp d = strip (decode_utf8 (d_payload d))"
    by (rule decode_sdp(1) [OF assms(1)])
next
  assume "map_of (seen st) (d_msg_id d) \<noteq> None"
  then obtain i0 where "map_of (seen st) (d_msg_id d) = Some i0" by auto
  from main_loop_announce_again [OF assms this, of cfg os now]
  show "\<exists>st' i. main_loop cfg os now pkt st = Inr st' \<and> out st' = out st \<and>
               map_of (seen st') (d_msg_id d) = Some i \<and> sdp i = d_sdp d"
    by (simp add: update_conv')
next
  assume a: "map_of (seen st) (d_msg_id d) = None \<and>
          \<not> write_raises os (path_under (output_dir cfg) (file_name (announced_title d)))"
  from main_loop_announce_first [OF assms, of st os cfg now] a
  show "\<exists>st' i line. main_loop cfg os now pkt st = Inr st' \<and>
               map_of (seen st') (d_msg_id d) = Some i \<and> sdp i = d_sdp d \<and>
               out st' = out st @
                 [Write (path_under (output_dir cfg) (file_name (announced_title d)))
                    (d_sdp d @ [10]), Print line]"
    by (simp add: update_conv')
next
  show "strip (decode_utf8 (bytes_of '' v=0\<newline>'')) = str_of ''v=0''"
    by (simp add: eval_defs)
next
  show "decode_utf8 [255, 65] = [65533, 65]"
    by (simp add: eval_defs)
qed

theorem document_is_stripped_text_witness:
  "\<exists>d. decode (announce_1234 '' s=A\<newline>'') = Inr d \<and> d_deletion d = 0 \<and>
      d_payload d = bytes_of '' s=A\<newline>'' \<and> d_sdp d = str_of ''s=A'' \<and>
      map_of (seen start) (d_msg_id d) = None \<and>
      map_of (seen state_A) (d_msg_id d) \<noteq> None \<and>
      \<not> write_raises os_fine (path_under (output_dir cfg_out) (file_name (announced_title d))) \<and>
      (\<exists>st' line. main_loop cfg_out os_fine 0 (announce_1234 '' s=A\<newline>'') start = Inr st' \<and>
         out st' = [Write (str_of ''out/A.sdp'') (str_of ''s=A'' @ [10]), Print line]) \<and>
      (\<exists>st'. main_loop cfg_out os_fine 9 (announce_1234 '' s=A\<newline>'') state_A = Inr st' \<and>
         out st' = out state_A)"
proof -
  let ?pkt = "announce_1234 '' s=A\<newline>''"
  let ?d = "\<lparr>d_b0 = 32, d_auth_len = 0, d_msg_id = 4660, d_deletion = 0, d_off = 8,
          d_payload = bytes_of '' s=A\<newline>'', d_sdp = str_of ''s=A''\<rparr>"
  have dec: "decode ?pkt = Inr ?d" by (simp add: eval_defs)
  have h2: "d_deletion ?d = 0" by simp
  have h3: "map_of (seen start) (d_msg_id ?d) = None" by (simp add: start_def)
  have h3': "map_of (seen state_A) (d_msg_id ?d) \<noteq> None" by (simp add: state_A_def)
  have h4: "\<not> write_raises os_fine p" for p by (simp add: os_fine_def)
  have t: "announced_title ?d = str_of ''A''" by (simp add: eval_defs)
  have p: "path_under (output_dir cfg_out) (file_name (str_of ''A'')) = str_of ''out/A.sdp''"
    by (simp add: eval_defs)
  note w1 = document_is_stripped_text [OF dec h2, where st = start and cfg = cfg_out
      and os = os_fine and now = 0]
  note w2 = document_is_stripped_text [OF dec h2, where st = state_A and cfg = cfg_out
      and os = os_fine and now = 9]
  have c1: "\<exists>st' line. main_loop cfg_out os_fine 0 ?pkt start = Inr st' \<and>
         out st' = [Write (str_of ''out/A.sdp'') (str_of ''s=A'' @ [10]), Print line]"
    using w1 h3 h4 unfolding t p by (auto simp: start_def)
  have c2: "\<exists>st'. main_loop cfg_out os_fine 9 ?pkt state_A = Inr st' \<and> out st' = out state_A"
    using w2 h3' by auto
  show ?thesis
    using dec h2 h3 h3' h4 c1 c2 by (intro exI [of _ ?d]) simp
qed

end
